theory Spec2Isabelle
  imports Complex_Main "HOL-Library.Sublist"
begin

section \<open>String operations used by the scraper\<close>

text \<open>
  \<^verbatim>\<open>productUrl.includes('/dp/')\<close> and \<^verbatim>\<open>productUrl.replace('/dp/', '/product-reviews/')\<close>
  are the two string built-ins the scraper calls. Strings are character lists. With a
  string (not a regular expression) as its pattern, \<^verbatim>\<open>replace\<close> rewrites the leftmost
  occurrence only; the replacement text used by the scraper has no dollar sign, so none
  of the substitution patterns of \<^verbatim>\<open>replace\<close> applies and the text is inserted as it is.
\<close>

fun startsWith :: "string \<Rightarrow> string \<Rightarrow> bool" where
  "startsWith s [] = True"
| "startsWith [] (p # ps) = False"
| "startsWith (c # cs) (p # ps) = (c = p \<and> startsWith cs ps)"

fun includes_str :: "string \<Rightarrow> string \<Rightarrow> bool" where
  "includes_str [] pat = startsWith [] pat"
| "includes_str (c # cs) pat = (startsWith (c # cs) pat \<or> includes_str cs pat)"

fun replace :: "string \<Rightarrow> string \<Rightarrow> string \<Rightarrow> string" where
  "replace [] pat rep = (if startsWith [] pat then rep else [])"
| "replace (c # cs) pat rep =
     (if startsWith (c # cs) pat then rep @ drop (length pat) (c # cs)
      else c # replace cs pat rep)"

text \<open>
  \<^verbatim>\<open>const reviewsUrl = productUrl.includes('/dp/')
       ? productUrl.replace('/dp/', '/product-reviews/') : productUrl;\<close>
\<close>

definition reviewsUrl :: "string \<Rightarrow> string" where
  "reviewsUrl productUrl =
     (if includes_str productUrl ''/dp/''
      then replace productUrl ''/dp/'' ''/product-reviews/''
      else productUrl)"

section \<open>Data model\<close>

text \<open>
  The schemas of \<^verbatim>\<open>schemas.ts\<close> as records: an optional field is an \<open>option\<close>, a
  \<^verbatim>\<open>z.number()\<close> is a rational, a \<^verbatim>\<open>z.record(z.string())\<close> is an association list.
  A date value is either the clock reading taken by \<^verbatim>\<open>new Date()\<close> or the value that
  \<^verbatim>\<open>new Date(text)\<close> parses from a text; the parser is a built-in and its result is kept
  symbolic.
\<close>

type_synonym number = rat

datatype date = DateAt nat | DateParsed string

record product =
  p_id :: "string option"
  p_name :: string
  p_price :: string
  p_currency :: "string option"
  p_description :: "string option"
  p_category :: "string option"
  p_imageUrl :: "string option"
  p_url :: string
  p_brand :: "string option"
  p_rating :: "number option"
  p_reviewCount :: "number option"
  p_inStock :: "bool option"
  p_specs :: "(string \<times> string) list option"
  p_dateScraped :: date

record product_list =
  pl_products :: "product list"
  pl_category :: "string option"
  pl_page :: "number option"
  pl_totalProducts :: "number option"
  pl_websiteName :: string
  pl_dateScraped :: date

text \<open>
  The objects built by the review post-processing: the six fields of the extracted entry,
  then \<^verbatim>\<open>productId\<close>, \<^verbatim>\<open>date\<close>, \<^verbatim>\<open>dateScraped\<close> and \<^verbatim>\<open>verified\<close>. A \<^verbatim>\<open>date\<close> of
  \<^verbatim>\<open>undefined\<close> is \<open>None\<close>.
\<close>

record review =
  r_author :: "string option"
  r_rating :: number
  r_title :: "string option"
  r_content :: string
  r_helpful :: "number option"
  r_productId :: string
  r_date :: "date option"
  r_dateScraped :: date
  r_verified :: bool

datatype document = ProductDoc product | ProductListDoc product_list | ReviewDoc review

text \<open>The collection names \<^verbatim>\<open>COLLECTIONS\<close>.\<close>

definition PRODUCTS :: string where
  "PRODUCTS = ''products''"

definition PRODUCT_LISTS :: string where
  "PRODUCT_LISTS = ''product_lists''"

definition REVIEWS :: string where
  "REVIEWS = ''reviews''"

subsection \<open>What the extraction returns\<close>

text \<open>
  The shapes passed to \<^verbatim>\<open>page.extract\<close> as \<^verbatim>\<open>schema\<close>. The validation keeps the listed
  fields only, so an extracted entry has no field beyond these.
\<close>

record list_entry =
  le_name :: string
  le_price :: string
  le_url :: string
  le_imageUrl :: "string option"
  le_rating :: "number option"
  le_reviewCount :: "number option"

record list_data =
  ld_products :: "list_entry list"
  ld_category :: string
  ld_totalProducts :: "number option"

record detail_data =
  dd_id :: "string option"
  dd_name :: string
  dd_price :: string
  dd_currency :: "string option"
  dd_description :: "string option"
  dd_category :: "string option"
  dd_imageUrl :: "string option"
  dd_url :: string
  dd_brand :: "string option"
  dd_rating :: "number option"
  dd_reviewCount :: "number option"
  dd_inStock :: "bool option"
  dd_specs :: "(string \<times> string) list option"

record review_entry =
  re_author :: "string option"
  re_rating :: number
  re_title :: "string option"
  re_content :: string
  re_date :: "string option"
  re_helpful :: "number option"

record reviews_data =
  rd_productId :: string
  rd_reviews :: "review_entry list"

section \<open>The world around the program\<close>

text \<open>
  The program talks to a document store and to a browser page. Both are outside the
  repository; they are modelled by an in-memory double whose behaviour is fixed by an
  environment: whether a session with the store can be established, which documents the
  store accepts, whether reads succeed, which pages can be reached, and what the
  extraction returns on a page (\<open>None\<close> when the extraction or its validation fails).
\<close>

datatype error = ConnectionError | WriteError | ReadError | NavigationError | ExtractionError

record env =
  reachable :: bool
  accepts :: "string \<Rightarrow> document \<Rightarrow> bool"
  readable :: bool
  goto_ok :: "string \<Rightarrow> bool"
  extract_list :: "string \<Rightarrow> list_data option"
  extract_detail :: "string \<Rightarrow> detail_data option"
  extract_reviews :: "string \<Rightarrow> reviews_data option"

datatype extract_kind = ListPage | DetailPage | ReviewsPage

text \<open>The lines written by \<^verbatim>\<open>console.error\<close>, by the place that writes them.\<close>

datatype log_entry =
    ConnectFailed error
  | StoreFailed string error
  | FindFailed string error
  | AggregateFailed string error
  | ItemFailed string error
  | RunFailed error

text \<open>
  The state: the module variables \<^verbatim>\<open>client\<close> and \<^verbatim>\<open>db\<close> (an object is its identity, a
  number drawn from \<open>next_handle\<close>), the number of sessions established with the store,
  the contents of the store's collections, the insert calls made (collection and batch),
  the page's location, the \<^verbatim>\<open>page.goto\<close> and \<^verbatim>\<open>page.extract\<close> calls made, the clock in
  milliseconds, and the error lines on the console. The informational \<^verbatim>\<open>console.log\<close>
  lines are not part of the state.
\<close>

record world =
  client :: "nat option"
  db :: "nat option"
  next_handle :: nat
  sessions :: nat
  collections :: "string \<Rightarrow> document list"
  writes :: "(string \<times> document list) list"
  location :: string
  navigations :: "string list"
  extractions :: "(extract_kind \<times> string) list"
  clock :: nat
  console_errors :: "log_entry list"

text \<open>
  An \<^verbatim>\<open>async\<close> function is a function from the state to an outcome and the state it
  leaves: \<open>Inl\<close> is a thrown error. A failed call keeps the effects it had before it
  failed. \<open>andThen\<close> is sequencing with \<^verbatim>\<open>await\<close>: an error of the first part skips the
  second. \<open>catchLog\<close> is \<^verbatim>\<open>try { ... } catch (error) { console.error(...); throw error; }\<close>.
\<close>

type_synonym 'a action = "world \<Rightarrow> (error + 'a) \<times> world"

definition andThen :: "'a action \<Rightarrow> ('a \<Rightarrow> 'b action) \<Rightarrow> 'b action" where
  "andThen m f w = (case m w of (Inl err, w1) \<Rightarrow> (Inl err, w1) | (Inr x, w1) \<Rightarrow> f x w1)"

definition console_error :: "log_entry \<Rightarrow> world \<Rightarrow> world" where
  "console_error line w = w\<lparr>console_errors := console_errors w @ [line]\<rparr>"

definition catchLog :: "(error \<Rightarrow> log_entry) \<Rightarrow> 'a action \<Rightarrow> 'a action" where
  "catchLog tag m w =
     (case m w of
        (Inl err, w1) \<Rightarrow> (Inl err, console_error (tag err) w1)
      | (Inr x, w1) \<Rightarrow> (Inr x, w1))"

subsection \<open>The store's driver\<close>

text \<open>
  \<^verbatim>\<open>insertOne\<close> and \<^verbatim>\<open>insertMany\<close> of the driver. A batch is inserted in order and stops
  at the first document the store rejects: the documents before it stay in the
  collection and the call fails. The \<^verbatim>\<open>_id\<close> the store assigns is left out.
\<close>

definition insertOne :: "env \<Rightarrow> string \<Rightarrow> document \<Rightarrow> unit action" where
  "insertOne e coll d w =
     (let w1 = w\<lparr>writes := writes w @ [(coll, [d])]\<rparr> in
      if accepts e coll d
      then (Inr (), w1\<lparr>collections := (collections w1)(coll := collections w1 coll @ [d])\<rparr>)
      else (Inl WriteError, w1))"

definition insertMany :: "env \<Rightarrow> string \<Rightarrow> document list \<Rightarrow> unit action" where
  "insertMany e coll ds w =
     (let stored = takeWhile (accepts e coll) ds;
          w1 = w\<lparr>writes := writes w @ [(coll, ds)],
                 collections := (collections w)(coll := collections w coll @ stored)\<rparr>
      in if length stored = length ds then (Inr (), w1) else (Inl WriteError, w1))"

subsection \<open>The page\<close>

text \<open>
  \<^verbatim>\<open>page.goto\<close>, \<^verbatim>\<open>page.waitForTimeout\<close>, the scrolling \<^verbatim>\<open>page.evaluate\<close> and
  \<^verbatim>\<open>page.extract\<close>, one function for each of the three shapes it is called with.
  Waiting and scrolling always succeed in the double; scrolling leaves no trace in the
  state.
\<close>

definition goto :: "env \<Rightarrow> string \<Rightarrow> unit action" where
  "goto e url w =
     (let w1 = w\<lparr>navigations := navigations w @ [url]\<rparr> in
      if goto_ok e url then (Inr (), w1\<lparr>location := url\<rparr>) else (Inl NavigationError, w1))"

definition waitForTimeout :: "nat \<Rightarrow> unit action" where
  "waitForTimeout ms w = (Inr (), w\<lparr>clock := clock w + ms\<rparr>)"

definition scrollTo :: "unit action" where
  "scrollTo w = (Inr (), w)"

definition pageExtract :: "extract_kind \<Rightarrow> (string \<Rightarrow> 'a option) \<Rightarrow> 'a action" where
  "pageExtract kind oracle w =
     (let w1 = w\<lparr>extractions := extractions w @ [(kind, location w)]\<rparr> in
      case oracle (location w) of
        None \<Rightarrow> (Inl ExtractionError, w1)
      | Some data \<Rightarrow> (Inr data, w1))"

definition newDate :: "world \<Rightarrow> date" where
  "newDate w = DateAt (clock w)"

section \<open>The document-store gateway\<close>

text \<open>
  \<^verbatim>\<open>connectToMongo\<close>: \<^verbatim>\<open>if (db) return db;\<close> then, inside \<^verbatim>\<open>try\<close>, a new client is
  assigned to \<^verbatim>\<open>client\<close>, connected, and \<^verbatim>\<open>db\<close> is set to its database handle. A failed
  connect leaves \<^verbatim>\<open>client\<close> assigned and \<^verbatim>\<open>db\<close> null, logs and rethrows.
\<close>

definition connectToMongo :: "env \<Rightarrow> nat action" where
  "connectToMongo e w =
     (case db w of
        Some database \<Rightarrow> (Inr database, w)
      | None \<Rightarrow>
          catchLog ConnectFailed
            (\<lambda>w. let c = next_handle w;
                      w1 = w\<lparr>client := Some c, next_handle := Suc c\<rparr>
                  in if reachable e
                     then (let d = next_handle w1
                           in (Inr d, w1\<lparr>db := Some d, next_handle := Suc d,
                                         sessions := Suc (sessions w1)\<rparr>))
                     else (Inl ConnectionError, w1)) w)"

text \<open>\<^verbatim>\<open>closeMongo\<close>: closes the client if there is one and resets both variables.\<close>

definition closeMongo :: "world \<Rightarrow> world" where
  "closeMongo w =
     (case client w of
        Some c \<Rightarrow> w\<lparr>client := None, db := None\<rparr>
      | None \<Rightarrow> w)"

text \<open>
  \<^verbatim>\<open>storeData<T>(collectionName, data: T | T[])\<close>: the argument is one record or an
  array, told apart by \<^verbatim>\<open>Array.isArray\<close>. The connection is obtained first, outside the
  \<^verbatim>\<open>try\<close>; then an array is inserted in one \<^verbatim>\<open>insertMany\<close> if its length is positive
  and not at all otherwise, and a single record is inserted by \<^verbatim>\<open>insertOne\<close>.
\<close>

datatype 'a one_or_many = One 'a | Many "'a list"

definition storeData :: "env \<Rightarrow> string \<Rightarrow> document one_or_many \<Rightarrow> unit action" where
  "storeData e collectionName data =
     andThen (connectToMongo e) (\<lambda>database.
       catchLog (StoreFailed collectionName)
         (case data of
            Many ds \<Rightarrow>
              if length ds > 0 then insertMany e collectionName ds
              else (\<lambda>w. (Inr (), w))
          | One d \<Rightarrow> insertOne e collectionName d))"

text \<open>
  \<^verbatim>\<open>findData\<close> and \<^verbatim>\<open>aggregateData\<close>: the filter and the pipeline are evaluated by the
  store; here they are functions on the collection's documents. The store either rejects
  a pipeline, which fails the call, or returns its results.
\<close>

definition findData :: "env \<Rightarrow> string \<Rightarrow> (document \<Rightarrow> bool) \<Rightarrow> document list action" where
  "findData e collectionName query =
     andThen (connectToMongo e) (\<lambda>database.
       catchLog (FindFailed collectionName)
         (\<lambda>w. if readable e then (Inr (filter query (collections w collectionName)), w)
              else (Inl ReadError, w)))"

definition aggregateData ::
  "env \<Rightarrow> string \<Rightarrow> (document list \<Rightarrow> error + 'r list) \<Rightarrow> 'r list action" where
  "aggregateData e collectionName pipeline =
     andThen (connectToMongo e) (\<lambda>database.
       catchLog (AggregateFailed collectionName)
         (\<lambda>w. if readable e then (pipeline (collections w collectionName), w)
              else (Inl ReadError, w)))"

section \<open>The scrape operations\<close>

text \<open>
  \<^verbatim>\<open>scrapeProductList\<close>. Each extracted entry becomes a product with the entry's fields
  and \<^verbatim>\<open>dateScraped: new Date()\<close>; the fields of the product schema that the entry does
  not have are absent.
\<close>

definition stampProduct :: "date \<Rightarrow> list_entry \<Rightarrow> product" where
  "stampProduct now entry =
     \<lparr>p_id = None, p_name = le_name entry, p_price = le_price entry, p_currency = None,
      p_description = None, p_category = None, p_imageUrl = le_imageUrl entry,
      p_url = le_url entry, p_brand = None, p_rating = le_rating entry,
      p_reviewCount = le_reviewCount entry, p_inStock = None, p_specs = None,
      p_dateScraped = now\<rparr>"

definition scrapeProductList :: "env \<Rightarrow> string \<Rightarrow> product_list action" where
  "scrapeProductList e categoryUrl =
     andThen (goto e categoryUrl) (\<lambda>_.
     andThen (waitForTimeout 2000) (\<lambda>_.
     andThen scrollTo (\<lambda>_.
     andThen (waitForTimeout 1000) (\<lambda>_.
     andThen scrollTo (\<lambda>_.
     andThen (waitForTimeout 1000) (\<lambda>_.
     andThen (pageExtract ListPage (extract_list e)) (\<lambda>data w.
       (let products = map (stampProduct (newDate w)) (ld_products data);
            productList =
              \<lparr>pl_products = products, pl_category = Some (ld_category data),
               pl_page = Some 1, pl_totalProducts = ld_totalProducts data,
               pl_websiteName = ''Amazon'', pl_dateScraped = newDate w\<rparr>
        in andThen (storeData e PRODUCT_LISTS (One (ProductListDoc productList))) (\<lambda>_.
           andThen (storeData e PRODUCTS (Many (map ProductDoc products))) (\<lambda>_ w.
             (Inr productList, w)))) w)))))))"

text \<open>
  \<^verbatim>\<open>scrapeProductDetails\<close>: the extracted product with \<^verbatim>\<open>url\<close> overwritten by the
  argument and \<^verbatim>\<open>dateScraped\<close> added, stored as a single document.
\<close>

definition completeProduct :: "string \<Rightarrow> date \<Rightarrow> detail_data \<Rightarrow> product" where
  "completeProduct productUrl now d =
     \<lparr>p_id = dd_id d, p_name = dd_name d, p_price = dd_price d, p_currency = dd_currency d,
      p_description = dd_description d, p_category = dd_category d,
      p_imageUrl = dd_imageUrl d, p_url = productUrl, p_brand = dd_brand d,
      p_rating = dd_rating d, p_reviewCount = dd_reviewCount d, p_inStock = dd_inStock d,
      p_specs = dd_specs d, p_dateScraped = now\<rparr>"

definition scrapeProductDetails :: "env \<Rightarrow> string \<Rightarrow> product action" where
  "scrapeProductDetails e productUrl =
     andThen (goto e productUrl) (\<lambda>_.
     andThen (waitForTimeout 2000) (\<lambda>_.
     andThen scrollTo (\<lambda>_.
     andThen (waitForTimeout 1000) (\<lambda>_.
     andThen scrollTo (\<lambda>_.
     andThen (waitForTimeout 1000) (\<lambda>_.
     andThen (pageExtract DetailPage (extract_detail e)) (\<lambda>d w.
       (let complete = completeProduct productUrl (newDate w) d
        in andThen (storeData e PRODUCTS (One (ProductDoc complete))) (\<lambda>_ w.
             (Inr complete, w))) w)))))))"

text \<open>
  The review post-processing of \<^verbatim>\<open>scrapeProductReviews\<close>:
  \<^verbatim>\<open>data.reviews.map(review => ({ ...review, productId: data.productId,
       date: review.date ? new Date(review.date) : undefined,
       dateScraped: new Date(), verified: true }))\<close>.
  The test \<^verbatim>\<open>review.date ?\<close> is on the truth value of the text: a missing date and the
  empty text both take the \<^verbatim>\<open>undefined\<close> branch.
\<close>

definition processReview :: "string \<Rightarrow> date \<Rightarrow> review_entry \<Rightarrow> review" where
  "processReview productId now entry =
     \<lparr>r_author = re_author entry, r_rating = re_rating entry, r_title = re_title entry,
      r_content = re_content entry, r_helpful = re_helpful entry,
      r_productId = productId,
      r_date = (case re_date entry of
                  None \<Rightarrow> None
                | Some text \<Rightarrow> if text \<noteq> [] then Some (DateParsed text) else None),
      r_dateScraped = now,
      r_verified = True\<rparr>"

definition processReviews :: "reviews_data \<Rightarrow> date \<Rightarrow> review list" where
  "processReviews data now = map (processReview (rd_productId data) now) (rd_reviews data)"

definition scrapeProductReviews :: "env \<Rightarrow> string \<Rightarrow> unit action" where
  "scrapeProductReviews e productUrl =
     andThen (goto e (reviewsUrl productUrl)) (\<lambda>_.
     andThen (waitForTimeout 2000) (\<lambda>_.
     andThen (pageExtract ReviewsPage (extract_reviews e)) (\<lambda>data w.
       (let reviews = processReviews data (newDate w)
        in if length reviews > 0
           then storeData e REVIEWS (Many (map ReviewDoc reviews))
           else (\<lambda>w. (Inr (), w))) w)))"

section \<open>The orchestrator\<close>

text \<open>
  The body of the loop of \<^verbatim>\<open>main\<close>: inside \<^verbatim>\<open>try\<close>, the detail scrape, the reviews
  scrape and a wait of two seconds; the \<^verbatim>\<open>catch\<close> writes one error line naming the
  product and does not rethrow.
\<close>

definition tryBlock :: "env \<Rightarrow> product \<Rightarrow> unit action" where
  "tryBlock e item =
     andThen (scrapeProductDetails e (p_url item)) (\<lambda>detailedProduct.
     andThen (scrapeProductReviews e (p_url item)) (\<lambda>_.
     waitForTimeout 2000))"

definition loopBody :: "env \<Rightarrow> product \<Rightarrow> world \<Rightarrow> world" where
  "loopBody e item w =
     (case tryBlock e item w of
        (Inl err, w1) \<Rightarrow> console_error (ItemFailed (p_name item) err) w1
      | (Inr _, w1) \<Rightarrow> w1)"

fun forEachProduct :: "env \<Rightarrow> product list \<Rightarrow> world \<Rightarrow> world" where
  "forEachProduct e [] w = w"
| "forEachProduct e (item # rest) w = forEachProduct e rest (loopBody e item w)"

text \<open>
  The reporting after the loop, as in the \<^verbatim>\<open>main\<close> that imports the gateway and the
  scraper: it reads from the store with \<^verbatim>\<open>aggregateData\<close> and \<^verbatim>\<open>findData\<close> and prints
  tables. Its only effects on the state are those of the gateway calls. The grouping
  pipeline and the rating filter are evaluated by the store and their results only
  printed, so they are parameters here. (The self-contained copy of \<^verbatim>\<open>main\<close> calls
  \<^verbatim>\<open>runQueries\<close> instead, which makes the same kind of calls and catches its own
  errors; the loop before it is the same.)
\<close>

definition reporting ::
  "env \<Rightarrow> (document list \<Rightarrow> error + (string option \<times> nat) list) \<Rightarrow>
     (document \<Rightarrow> bool) \<Rightarrow> unit action" where
  "reporting e byCategory highlyRated =
     andThen (aggregateData e PRODUCTS byCategory) (\<lambda>productsByCategory.
     andThen (findData e PRODUCTS highlyRated) (\<lambda>highestRatedProducts w.
       (Inr (), w)))"

definition categoryUrl :: string where
  "categoryUrl = ''https://www.amazon.com/s?k=laptops''"

text \<open>
  \<^verbatim>\<open>main\<close>: connect, scrape the list, take \<^verbatim>\<open>productList.products.slice(0, 3)\<close>, run
  the loop, report; the outer \<^verbatim>\<open>catch\<close> logs whatever escaped, and \<^verbatim>\<open>finally\<close> closes
  the connection.
\<close>

definition main ::
  "env \<Rightarrow> (document list \<Rightarrow> error + (string option \<times> nat) list) \<Rightarrow>
     (document \<Rightarrow> bool) \<Rightarrow> world \<Rightarrow> world" where
  "main e byCategory highlyRated w =
     closeMongo
       (case andThen (connectToMongo e) (\<lambda>_.
             andThen (scrapeProductList e categoryUrl) (\<lambda>productList w.
               (let productsToScrape = take 3 (pl_products productList)
                in reporting e byCategory highlyRated
                     (forEachProduct e productsToScrape w)))) w of
          (Inl err, w1) \<Rightarrow> console_error (RunFailed err) w1
        | (Inr _, w1) \<Rightarrow> w1)"

section \<open>The price-range aggregation\<close>

text \<open>
  The third query of \<^verbatim>\<open>runQueries\<close> passes this pipeline to \<^verbatim>\<open>aggregateData\<close> on the
  products collection:
  \<^verbatim>\<open>{ $addFields: { numericPrice: { $toDouble: { $replaceAll: {
        input: { $replaceAll: { input: "$price", find: "$", replacement: "" } },
        find: ",", replacement: "" } } } } },
  { $group: { _id: null, avgPrice: { $avg: "$numericPrice" },
        minPrice: { $min: "$numericPrice" }, maxPrice: { $max: "$numericPrice" } } }\<close>
  The pipeline is data; the store evaluates it. Its expressions are embedded as they are
  written: \<open>Operand\<close> is a text written directly as an argument, \<open>Literal\<close> is a text
  wrapped in \<^verbatim>\<open>$literal\<close> (the program has none). \<open>numericPrice\<close> is the program's
  expression; \<open>numericPriceLiteral\<close> is the same with the dollar sign to find written as a
  literal, kept for comparison. The values the pipeline meets are null, texts and
  numbers (rationals); \<open>Opaque\<close> stands for every other value (dates, booleans, nested
  documents).
\<close>

datatype bson = Null | Text string | Number number | Opaque

datatype expr =
    Operand string
  | Literal string
  | ReplaceAll expr expr expr
  | ToDouble expr

definition numericPrice :: expr where
  "numericPrice =
     ToDouble
       (ReplaceAll
          (ReplaceAll (Operand ''$price'') (Operand ''$'') (Operand ''''))
          (Operand '','') (Operand ''''))"

definition numericPriceLiteral :: expr where
  "numericPriceLiteral =
     ToDouble
       (ReplaceAll
          (ReplaceAll (Operand ''$price'') (Literal ''$'') (Operand ''''))
          (Operand '','') (Operand ''''))"

subsection \<open>The store's operators\<close>

text \<open>
  \<^verbatim>\<open>$replaceAll\<close> replaces every occurrence of the text to find, left to right (an empty
  text to find does not occur in this pipeline and changes nothing here), and gives null
  when an argument is null. \<^verbatim>\<open>$toDouble\<close> reads a text as a number and keeps null; the
  texts read here are plain decimals (digits, then optionally a point and digits), any
  other text fails the conversion.
\<close>

fun replaceAllStr :: "string \<Rightarrow> string \<Rightarrow> string \<Rightarrow> string" where
  "replaceAllStr [] pat rep = []"
| "replaceAllStr (c # cs) pat rep =
     (if pat \<noteq> [] \<and> startsWith (c # cs) pat
      then rep @ replaceAllStr (drop (length pat) (c # cs)) pat rep
      else c # replaceAllStr cs pat rep)"

definition digitOf :: "char \<Rightarrow> nat option" where
  "digitOf c =
     map_of [(CHR ''0'', 0), (CHR ''1'', 1), (CHR ''2'', 2), (CHR ''3'', 3), (CHR ''4'', 4),
             (CHR ''5'', 5), (CHR ''6'', 6), (CHR ''7'', 7), (CHR ''8'', 8), (CHR ''9'', 9)] c"

fun digitsValue :: "nat \<Rightarrow> string \<Rightarrow> nat option" where
  "digitsValue acc [] = Some acc"
| "digitsValue acc (c # cs) =
     (case digitOf c of None \<Rightarrow> None | Some d \<Rightarrow> digitsValue (10 * acc + d) cs)"

definition parseDecimal :: "string \<Rightarrow> number option" where
  "parseDecimal s =
     (let whole = takeWhile (\<lambda>c. c \<noteq> CHR ''.'') s;
          rest = dropWhile (\<lambda>c. c \<noteq> CHR ''.'') s;
          frac = (case rest of [] \<Rightarrow> [] | dot # ds \<Rightarrow> ds)
      in if whole = [] \<or> (rest \<noteq> [] \<and> frac = []) then None
         else (case digitsValue 0 (whole @ frac) of
                 None \<Rightarrow> None
               | Some n \<Rightarrow> Some (of_nat n / of_nat (10 ^ length frac))))"

text \<open>
  A stored document as the list of its fields, the optional ones only when present.
\<close>

type_synonym row = "(string \<times> bson) list"

definition optional :: "string \<Rightarrow> ('a \<Rightarrow> bson) \<Rightarrow> 'a option \<Rightarrow> row" where
  "optional name conv v = (case v of None \<Rightarrow> [] | Some x \<Rightarrow> [(name, conv x)])"

fun fieldsOf :: "document \<Rightarrow> row" where
  "fieldsOf (ProductDoc p) =
     optional ''id'' Text (p_id p) @ [(''name'', Text (p_name p)), (''price'', Text (p_price p))] @
     optional ''currency'' Text (p_currency p) @
     optional ''description'' Text (p_description p) @
     optional ''category'' Text (p_category p) @
     optional ''imageUrl'' Text (p_imageUrl p) @ [(''url'', Text (p_url p))] @
     optional ''brand'' Text (p_brand p) @
     optional ''rating'' Number (p_rating p) @
     optional ''reviewCount'' Number (p_reviewCount p) @
     optional ''inStock'' (\<lambda>_. Opaque) (p_inStock p) @
     optional ''specs'' (\<lambda>_. Opaque) (p_specs p) @ [(''dateScraped'', Opaque)]"
| "fieldsOf (ProductListDoc l) =
     [(''products'', Opaque)] @ optional ''category'' Text (pl_category l) @
     optional ''page'' Number (pl_page l) @
     optional ''totalProducts'' Number (pl_totalProducts l) @
     [(''websiteName'', Text (pl_websiteName l)), (''dateScraped'', Opaque)]"
| "fieldsOf (ReviewDoc r) =
     optional ''author'' Text (r_author r) @ [(''rating'', Number (r_rating r))] @
     optional ''title'' Text (r_title r) @ [(''content'', Text (r_content r))] @
     optional ''helpful'' Number (r_helpful r) @ [(''productId'', Text (r_productId r))] @
     optional ''date'' (\<lambda>_. Opaque) (r_date r) @
     [(''dateScraped'', Opaque), (''verified'', Opaque)]"

text \<open>
  A text argument that starts with a dollar sign is a field path, read from the document
  (null when the document has no such field); any other text stands for itself. The
  pipeline relies on this rule for \<^verbatim>\<open>"$price"\<close> and \<^verbatim>\<open>"$numericPrice"\<close>. Under the same rule
  the text to find, \<^verbatim>\<open>"$"\<close>, is a field path with no name: \<open>namelessPath\<close> tells whether
  an expression has one. A text that starts with a dollar sign and is meant as itself
  has to be wrapped in \<^verbatim>\<open>$literal\<close>.
\<close>

definition operand :: "string \<Rightarrow> row \<Rightarrow> bson" where
  "operand s doc =
     (if startsWith s ''$''
      then (case map_of doc (tl s) of None \<Rightarrow> Null | Some v \<Rightarrow> v)
      else Text s)"

fun evaluate :: "expr \<Rightarrow> row \<Rightarrow> error + bson" where
  "evaluate (Operand s) doc = Inr (operand s doc)"
| "evaluate (Literal s) doc = Inr (Text s)"
| "evaluate (ReplaceAll input pattern replacement) doc =
     (case evaluate input doc of Inl err \<Rightarrow> Inl err | Inr i \<Rightarrow>
      case evaluate pattern doc of Inl err \<Rightarrow> Inl err | Inr f \<Rightarrow>
      case evaluate replacement doc of Inl err \<Rightarrow> Inl err | Inr r \<Rightarrow>
        (case (i, f, r) of
           (Text a, Text b, Text c) \<Rightarrow> Inr (Text (replaceAllStr a b c))
         | _ \<Rightarrow> if i = Null \<or> f = Null \<or> r = Null then Inr Null else Inl ReadError))"
| "evaluate (ToDouble x) doc =
     (case evaluate x doc of
        Inl err \<Rightarrow> Inl err
      | Inr Null \<Rightarrow> Inr Null
      | Inr (Number n) \<Rightarrow> Inr (Number n)
      | Inr (Text t) \<Rightarrow> (case parseDecimal t of None \<Rightarrow> Inl ReadError | Some n \<Rightarrow> Inr (Number n))
      | Inr Opaque \<Rightarrow> Inl ReadError)"

fun namelessPath :: "expr \<Rightarrow> bool" where
  "namelessPath (Operand s) = (s = ''$'')"
| "namelessPath (Literal s) = False"
| "namelessPath (ReplaceAll input pattern replacement) =
     (namelessPath input \<or> namelessPath pattern \<or> namelessPath replacement)"
| "namelessPath (ToDouble x) = namelessPath x"

text \<open>
  \<^verbatim>\<open>$addFields\<close> adds the value of an expression to every document. The accumulators of
  \<^verbatim>\<open>$group\<close> take the numbers among the values: \<^verbatim>\<open>$avg\<close> their mean, \<^verbatim>\<open>$min\<close> and \<^verbatim>\<open>$max\<close>
  the least and the greatest, each null when there is no number. With \<^verbatim>\<open>_id: null\<close> the
  group is the whole collection: one result for a collection that is not empty, none
  otherwise.
\<close>

fun addFields :: "string \<Rightarrow> expr \<Rightarrow> row list \<Rightarrow> error + row list" where
  "addFields name x [] = Inr []"
| "addFields name x (doc # docs) =
     (case evaluate x doc of Inl err \<Rightarrow> Inl err | Inr v \<Rightarrow>
      case addFields name x docs of Inl err \<Rightarrow> Inl err | Inr rest \<Rightarrow>
        Inr (((name, v) # doc) # rest))"

definition numbersOf :: "bson list \<Rightarrow> number list" where
  "numbersOf vs = concat (map (\<lambda>v. case v of Number n \<Rightarrow> [n] | _ \<Rightarrow> []) vs)"

definition avg :: "bson list \<Rightarrow> bson" where
  "avg vs = (case numbersOf vs of [] \<Rightarrow> Null
             | n # ns \<Rightarrow> Number (sum_list (n # ns) / of_nat (length (n # ns))))"

definition minOf :: "bson list \<Rightarrow> bson" where
  "minOf vs = (case numbersOf vs of [] \<Rightarrow> Null | n # ns \<Rightarrow> Number (fold min ns n))"

definition maxOf :: "bson list \<Rightarrow> bson" where
  "maxOf vs = (case numbersOf vs of [] \<Rightarrow> Null | n # ns \<Rightarrow> Number (fold max ns n))"

record price_stats =
  avgPrice :: bson
  minPrice :: bson
  maxPrice :: bson

text \<open>
  What the store makes of a field path with no name is a parameter: it refuses the
  pipeline when it parses it (\<open>Rejected\<close>), or it reads the path as a field that no
  document has (\<open>Missing\<close>). \<open>priceRangePipeline\<close> is the pipeline of the program.
\<close>

datatype nameless = Rejected | Missing

definition priceRange :: "expr \<Rightarrow> nameless \<Rightarrow> document list \<Rightarrow> error + price_stats list" where
  "priceRange x policy docs =
     (if policy = Rejected \<and> namelessPath x then Inl ReadError
      else (case addFields ''numericPrice'' x (map fieldsOf docs) of
              Inl err \<Rightarrow> Inl err
            | Inr rows \<Rightarrow>
                (let prices = map (operand ''$numericPrice'') rows
                 in Inr (if rows = [] then []
                         else [\<lparr>avgPrice = avg prices, minPrice = minOf prices,
                                maxPrice = maxOf prices\<rparr>]))))"

definition priceRangePipeline :: "nameless \<Rightarrow> document list \<Rightarrow> error + price_stats list" where
  "priceRangePipeline = priceRange numericPrice"

section \<open>Test doubles\<close>

text \<open>
  The state of a freshly loaded program (both module variables null, an empty store, a
  blank page), and three environments: a store and a page that never fail, the same with
  an unreachable store, and the same with one product page that cannot be reached.
  \<open>dependable\<close> says of an environment that neither the store nor the product and
  reviews pages ever fail in it.
\<close>

definition world0 :: world where
  "world0 =
     \<lparr>client = None, db = None, next_handle = 0, sessions = 0,
      collections = (\<lambda>_. []), writes = [], location = [], navigations = [],
      extractions = [], clock = 0, console_errors = []\<rparr>"

definition entryOf :: "string \<Rightarrow> string \<Rightarrow> string \<Rightarrow> list_entry" where
  "entryOf name price url =
     \<lparr>le_name = name, le_price = price, le_url = url, le_imageUrl = None,
      le_rating = None, le_reviewCount = None\<rparr>"

definition fiveEntries :: "list_entry list" where
  "fiveEntries =
     [entryOf ''A'' ''$19.99'' ''https://site/dp/A'',
      entryOf ''B'' ''$1,234.56'' ''https://site/dp/B'',
      entryOf ''C'' ''$5.00'' ''https://site/gp/C'',
      entryOf ''D'' ''$6.00'' ''https://site/dp/D'',
      entryOf ''E'' ''$7.00'' ''https://site/dp/E'']"

definition detailOf :: "string \<Rightarrow> detail_data" where
  "detailOf url =
     \<lparr>dd_id = None, dd_name = ''Laptop'', dd_price = ''$19.99'', dd_currency = None,
      dd_description = None, dd_category = None, dd_imageUrl = None, dd_url = url,
      dd_brand = None, dd_rating = None, dd_reviewCount = None, dd_inStock = None,
      dd_specs = None\<rparr>"

definition entryDated :: "string option \<Rightarrow> review_entry" where
  "entryDated d =
     \<lparr>re_author = None, re_rating = 5, re_title = None, re_content = ''Good'',
      re_date = d, re_helpful = None\<rparr>"

definition mockEnv :: env where
  "mockEnv =
     \<lparr>reachable = True, accepts = (\<lambda>_ _. True), readable = True, goto_ok = (\<lambda>_. True),
      extract_list =
        (\<lambda>_. Some \<lparr>ld_products = fiveEntries, ld_category = ''laptops'',
                     ld_totalProducts = None\<rparr>),
      extract_detail = (\<lambda>url. Some (detailOf url)),
      extract_reviews = (\<lambda>_. Some \<lparr>rd_productId = ''B0'', rd_reviews = []\<rparr>)\<rparr>"

definition downEnv :: env where
  "downEnv = mockEnv\<lparr>reachable := False\<rparr>"

definition flakyEnv :: env where
  "flakyEnv = mockEnv\<lparr>goto_ok := (\<lambda>url. url \<noteq> ''https://site/dp/A'')\<rparr>"

definition itemA :: product where
  "itemA = stampProduct (DateAt 0) (entryOf ''A'' ''$19.99'' ''https://site/dp/A'')"

definition itemB :: product where
  "itemB = stampProduct (DateAt 0) (entryOf ''B'' ''$1,234.56'' ''https://site/dp/B'')"

definition dependable :: "env \<Rightarrow> bool" where
  "dependable e \<longleftrightarrow>
     reachable e \<and> (\<forall>c d. accepts e c d) \<and> (\<forall>u. goto_ok e u) \<and>
     (\<forall>u. extract_detail e u \<noteq> None) \<and> (\<forall>u. extract_reviews e u \<noteq> None)"

section \<open>Properties of the string operations\<close>

lemma startsWith_append: "startsWith (p @ s) p"
  by (induction p) simp_all

lemma startsWith_iff: "startsWith s p \<longleftrightarrow> (\<exists>t. s = p @ t)"
proof (induction s p rule: startsWith.induct)
  case (1 s)
  then show ?case by simp
next
  case (2 p ps)
  then show ?case by simp
next
  case (3 c cs p ps)
  then show ?case by auto
qed

lemma includes_iff: "includes_str s p \<longleftrightarrow> (\<exists>pre post. s = pre @ p @ post)"
proof (induction s)
  case Nil
  then show ?case by (auto simp: startsWith_iff)
next
  case (Cons c cs)
  show ?case
  proof
    assume "includes_str (c # cs) p"
    then consider "startsWith (c # cs) p" | "includes_str cs p" by auto
    then show "\<exists>pre post. c # cs = pre @ p @ post"
    proof cases
      case 1
      then obtain t where "c # cs = p @ t" by (auto simp: startsWith_iff)
      then have "c # cs = [] @ p @ t" by simp
      then show ?thesis by blast
    next
      case 2
      then obtain pre post where "cs = pre @ p @ post" using Cons.IH by blast
      then have "c # cs = (c # pre) @ p @ post" by simp
      then show ?thesis by blast
    qed
  next
    assume "\<exists>pre post. c # cs = pre @ p @ post"
    then obtain pre post where eq: "c # cs = pre @ p @ post" by blast
    show "includes_str (c # cs) p"
    proof (cases pre)
      case Nil
      with eq have "startsWith (c # cs) p" by (auto simp: startsWith_iff)
      then show ?thesis by simp
    next
      case (Cons d pre')
      with eq have "cs = pre' @ p @ post" by simp
      then have "includes_str cs p" using Cons.IH by blast
      then show ?thesis by simp
    qed
  qed
qed

text \<open>
  The occurrence of \<open>p\<close> that starts right after \<open>pre\<close> is the leftmost one exactly when
  no occurrence starts inside \<open>pre\<close>, that is, when \<open>pre\<close> followed by all of \<open>p\<close> but its
  last character does not contain \<open>p\<close>.
\<close>

lemma replace_leftmost:
  "p \<noteq> [] \<Longrightarrow> \<not> includes_str (pre @ butlast p) p \<Longrightarrow>
     replace (pre @ p @ post) p rep = pre @ rep @ post"
proof (induction pre)
  case Nil
  then show ?case
    by (cases p) (simp_all add: startsWith_append)
next
  case (Cons c pre)
  have no_here: "\<not> startsWith (c # pre @ p @ post) p"
  proof
    assume "startsWith (c # pre @ p @ post) p"
    then obtain t where t: "c # pre @ p @ post = p @ t" by (auto simp: startsWith_iff)
    have "length p \<le> length (c # pre @ butlast p)" using Cons.prems(1)
      by (cases p rule: rev_cases) simp_all
    moreover have "c # pre @ p @ post = (c # pre @ butlast p) @ (last p # post)"
      using Cons.prems(1) by simp
    ultimately have "take (length p) (c # pre @ butlast p) = p"
      using t by (metis append_eq_conv_conj take_append diff_is_0_eq take_0 append_Nil2)
    then have "c # pre @ butlast p = p @ drop (length p) (c # pre @ butlast p)"
      by (metis append_take_drop_id)
    then have "startsWith (c # pre @ butlast p) p" by (metis startsWith_append)
    then show False using Cons.prems(2) by simp
  qed
  have "\<not> includes_str (pre @ butlast p) p" using Cons.prems(2) by simp
  then have "replace (pre @ p @ post) p rep = pre @ rep @ post"
    using Cons.IH Cons.prems(1) by blast
  then show ?case using no_here by simp
qed

lemma leftmost_exists:
  "p \<noteq> [] \<Longrightarrow> includes_str s p \<Longrightarrow>
     \<exists>pre post. s = pre @ p @ post \<and> \<not> includes_str (pre @ butlast p) p"
proof (induction s)
  case Nil
  then show ?case by (cases p) simp_all
next
  case (Cons c cs)
  show ?case
  proof (cases "startsWith (c # cs) p")
    case True
    then obtain t where "c # cs = [] @ p @ t" by (auto simp: startsWith_iff)
    moreover have "\<not> includes_str ([] @ butlast p) p"
    proof
      assume "includes_str ([] @ butlast p) p"
      then obtain a b where "butlast p = a @ p @ b" by (auto simp: includes_iff)
      then have "length (butlast p) \<ge> length p" by (metis length_append le_add1 le_add2 le_trans)
      then show False using Cons.prems(1) by (cases p rule: rev_cases) simp_all
    qed
    ultimately show ?thesis by blast
  next
    case False
    then have "includes_str cs p" using Cons.prems(2) by simp
    then obtain pre post where eq: "cs = pre @ p @ post"
      and nin: "\<not> includes_str (pre @ butlast p) p"
      using Cons.IH Cons.prems(1) by blast
    have "\<not> startsWith (c # pre @ butlast p) p"
    proof
      assume "startsWith (c # pre @ butlast p) p"
      then obtain t where "c # pre @ butlast p = p @ t" by (auto simp: startsWith_iff)
      then have "c # cs = p @ t @ (last p # post)"
        using eq Cons.prems(1)
        by (metis append.assoc append_Cons append_butlast_last_id append_Nil)
      then have "startsWith (c # cs) p" by (metis startsWith_append)
      then show False using False by simp
    qed
    then have "\<not> includes_str ((c # pre) @ butlast p) p" using nin by simp
    moreover have "c # cs = (c # pre) @ p @ post" using eq by simp
    ultimately show ?thesis by blast
  qed
qed

section \<open>Properties of the gateway\<close>

lemma connect_cases:
  "connectToMongo e w =
     (case db w of Some h \<Rightarrow> (Inr h, w)
      | None \<Rightarrow>
         if reachable e
         then (Inr (Suc (next_handle w)),
               w\<lparr>client := Some (next_handle w), db := Some (Suc (next_handle w)),
                 next_handle := Suc (Suc (next_handle w)), sessions := Suc (sessions w)\<rparr>)
         else (Inl ConnectionError,
               console_error (ConnectFailed ConnectionError)
                 (w\<lparr>client := Some (next_handle w), next_handle := Suc (next_handle w)\<rparr>)))"
  by (simp add: connectToMongo_def catchLog_def Let_def split: option.splits)

lemma connect_keeps:
  "collections (snd (connectToMongo e w)) = collections w"
  "writes (snd (connectToMongo e w)) = writes w"
  "navigations (snd (connectToMongo e w)) = navigations w"
  "extractions (snd (connectToMongo e w)) = extractions w"
  "location (snd (connectToMongo e w)) = location w"
  "clock (snd (connectToMongo e w)) = clock w"
  by (simp_all add: connect_cases console_error_def split: option.splits)

lemma connect_ok:
  "db w \<noteq> None \<or> reachable e \<Longrightarrow> \<exists>h. fst (connectToMongo e w) = Inr h \<and> db (snd (connectToMongo e w)) = Some h"
  by (auto simp: connect_cases split: option.splits)

lemma connect_open:
  "db w \<noteq> None \<or> reachable e \<Longrightarrow> db (snd (connectToMongo e w)) \<noteq> None"
  by (auto simp: connect_cases split: option.splits)

lemma connect_errors_grow:
  "prefix xs (console_errors w) \<Longrightarrow> prefix xs (console_errors (snd (connectToMongo e w)))"
  by (auto simp: connect_cases console_error_def split: option.splits)

lemma takeWhile_all: "length (takeWhile P xs) = length xs \<Longrightarrow> takeWhile P xs = xs"
  by (metis takeWhile_eq_take take_all order_refl)

lemma takeWhile_accepts: "\<forall>d \<in> set ds. P d \<Longrightarrow> takeWhile P ds = ds"
  by (simp add: takeWhile_eq_all_conv)

lemma store_many:
  "storeData e c (Many ds) w =
     (case connectToMongo e w of
        (Inl err, w1) \<Rightarrow> (Inl err, w1)
      | (Inr h, w1) \<Rightarrow>
          if ds = [] then (Inr (), w1)
          else if takeWhile (accepts e c) ds = ds
          then (Inr (), w1\<lparr>writes := writes w1 @ [(c, ds)],
                            collections := (collections w1)(c := collections w1 c @ ds)\<rparr>)
          else (Inl WriteError,
                console_error (StoreFailed c WriteError)
                  (w1\<lparr>writes := writes w1 @ [(c, ds)],
                       collections := (collections w1)
                         (c := collections w1 c @ takeWhile (accepts e c) ds)\<rparr>)))"
proof (cases "takeWhile (accepts e c) ds = ds")
  case True
  then show ?thesis
    by (simp add: storeData_def andThen_def catchLog_def insertMany_def Let_def
        del: takeWhile_eq_all_conv split: prod.splits sum.splits)
next
  case False
  then have "length (takeWhile (accepts e c) ds) \<noteq> length ds"
    using takeWhile_all by blast
  with False show ?thesis
    by (simp add: storeData_def andThen_def catchLog_def insertMany_def Let_def
        del: takeWhile_eq_all_conv split: prod.splits sum.splits)
qed

lemma store_one:
  "storeData e c (One d) w =
     (case connectToMongo e w of
        (Inl err, w1) \<Rightarrow> (Inl err, w1)
      | (Inr h, w1) \<Rightarrow>
          if accepts e c d
          then (Inr (), w1\<lparr>writes := writes w1 @ [(c, [d])],
                            collections := (collections w1)(c := collections w1 c @ [d])\<rparr>)
          else (Inl WriteError,
                console_error (StoreFailed c WriteError)
                  (w1\<lparr>writes := writes w1 @ [(c, [d])]\<rparr>)))"
  by (auto simp: storeData_def andThen_def catchLog_def insertOne_def Let_def
      split: prod.splits sum.splits)

lemma store_many_effect:
  "fst (storeData e c (Many ds) w) = Inr () \<Longrightarrow> ds \<noteq> [] \<Longrightarrow>
      collections (snd (storeData e c (Many ds) w)) c = collections w c @ ds \<and>
      (\<forall>c'. c' \<noteq> c \<longrightarrow> collections (snd (storeData e c (Many ds) w)) c' = collections w c') \<and>
      writes (snd (storeData e c (Many ds) w)) = writes w @ [(c, ds)]"
  using connect_keeps(1,2) [of e w]
  by (auto simp: store_many split: prod.splits sum.splits if_splits)

lemma store_one_effect:
  "fst (storeData e c (One d) w) = Inr () \<Longrightarrow>
      collections (snd (storeData e c (One d) w)) c = collections w c @ [d] \<and>
      (\<forall>c'. c' \<noteq> c \<longrightarrow> collections (snd (storeData e c (One d) w)) c' = collections w c') \<and>
      writes (snd (storeData e c (One d) w)) = writes w @ [(c, [d])]"
  using connect_keeps(1,2) [of e w]
  by (auto simp: store_one split: prod.splits sum.splits if_splits)

lemma store_empty_effect:
   "collections (snd (storeData e c (Many []) w)) = collections w \<and>
   writes (snd (storeData e c (Many []) w)) = writes w"
  using connect_keeps(1,2) [of e w]
  by (auto simp: store_many split: prod.splits sum.splits if_splits)

lemma store_empty_ok: "db w \<noteq> None \<or> reachable e \<Longrightarrow> fst (storeData e c (Many []) w) = Inr ()"
  using connect_ok [of w e]
  by (auto simp: store_many split: prod.splits sum.splits if_splits)

lemma store_unreachable: "db w = None \<Longrightarrow> \<not> reachable e \<Longrightarrow> fst (storeData e c data w) = Inl ConnectionError"
  by (simp add: storeData_def andThen_def connect_cases)

lemma store_many_ok: "db w \<noteq> None \<or> reachable e \<Longrightarrow> \<forall>d \<in> set ds. accepts e c d \<Longrightarrow>
      fst (storeData e c (Many ds) w) = Inr ()"
  using connect_ok [of w e]
  by (auto simp: store_many takeWhile_accepts split: prod.splits sum.splits if_splits)

lemma store_one_ok: "db w \<noteq> None \<or> reachable e \<Longrightarrow> accepts e c d \<Longrightarrow>
      fst (storeData e c (One d) w) = Inr ()"
  using connect_ok [of w e]
  by (auto simp: store_one split: prod.splits sum.splits if_splits)

lemma store_one_accepted:
  assumes "db w \<noteq> None \<or> reachable e" "accepts e c d"
  shows "storeData e c (One d) w =
           (Inr (), (snd (connectToMongo e w))
              \<lparr>writes := writes w @ [(c, [d])],
               collections := (collections w)(c := collections w c @ [d])\<rparr>)"
  using assms connect_ok [of w e] connect_keeps(1,2) [of e w]
  by (auto simp: store_one split: prod.splits sum.splits)

lemma store_many_accepted:
  assumes "db w \<noteq> None \<or> reachable e" "\<forall>d \<in> set ds. accepts e c d"
  shows "storeData e c (Many ds) w =
           (Inr (), if ds = [] then snd (connectToMongo e w)
                    else (snd (connectToMongo e w))
                      \<lparr>writes := writes w @ [(c, ds)],
                       collections := (collections w)(c := collections w c @ ds)\<rparr>)"
  using assms connect_ok [of w e] connect_keeps(1,2) [of e w]
  by (auto simp: store_many takeWhile_accepts split: prod.splits sum.splits)

lemma store_frame:
  "navigations (snd (storeData e c data w)) = navigations w"
  "extractions (snd (storeData e c data w)) = extractions w"
  "location (snd (storeData e c data w)) = location w"
  "clock (snd (storeData e c data w)) = clock w"
  using connect_keeps(3,4,5,6) [of e w]
  by (cases data; auto simp: store_one store_many console_error_def
      split: prod.splits sum.splits)+

lemma store_errors_grow:
  "prefix xs (console_errors w) \<Longrightarrow> prefix xs (console_errors (snd (storeData e c data w)))"
  using connect_errors_grow [of xs w e]
  by (cases data; auto simp: store_one store_many console_error_def
      split: prod.splits sum.splits)

lemma find_frame:
  "navigations (snd (findData e c q w)) = navigations w"
  "extractions (snd (findData e c q w)) = extractions w"
  using connect_keeps(3,4) [of e w]
  by (auto simp: findData_def andThen_def catchLog_def console_error_def
      split: prod.splits sum.splits)

lemma aggregate_frame:
  "navigations (snd (aggregateData e c p w)) = navigations w"
  "extractions (snd (aggregateData e c p w)) = extractions w"
  using connect_keeps(3,4) [of e w]
  by (auto simp: aggregateData_def andThen_def catchLog_def console_error_def
      split: prod.splits sum.splits)

lemma close_frame:
  "navigations (closeMongo w) = navigations w"
  "extractions (closeMongo w) = extractions w"
  by (simp_all add: closeMongo_def split: option.splits)

section \<open>Properties of sequencing and of the page\<close>

lemma andThen_goto:
  "andThen (goto e url) f w =
     (if goto_ok e url
      then f () (w\<lparr>navigations := navigations w @ [url], location := url\<rparr>)
      else (Inl NavigationError, w\<lparr>navigations := navigations w @ [url]\<rparr>))"
  by (simp add: andThen_def goto_def Let_def)

lemma andThen_wait:
  "andThen (waitForTimeout ms) f w = f () (w\<lparr>clock := clock w + ms\<rparr>)"
  by (simp add: andThen_def waitForTimeout_def)

lemma andThen_scroll: "andThen scrollTo f w = f () w"
  by (simp add: andThen_def scrollTo_def)

lemma andThen_extract:
  "andThen (pageExtract kind oracle) f w =
     (case oracle (location w) of
        None \<Rightarrow> (Inl ExtractionError, w\<lparr>extractions := extractions w @ [(kind, location w)]\<rparr>)
      | Some data \<Rightarrow> f data (w\<lparr>extractions := extractions w @ [(kind, location w)]\<rparr>))"
  by (simp add: andThen_def pageExtract_def Let_def split: option.splits)

lemma andThen_pure: "snd (andThen m (\<lambda>x w. (g x, w)) w) = snd (m w)"
  by (simp add: andThen_def split: prod.splits sum.splits)

lemma andThen_pure_fst:
  "fst (andThen m (\<lambda>x w. (Inr (g x), w)) w) = map_sum id g (fst (m w))"
  by (simp add: andThen_def split: prod.splits sum.splits)

lemma andThen_fails: "fst (m w) = Inl err \<Longrightarrow> fst (andThen m f w) = Inl err"
  by (auto simp: andThen_def split: prod.splits sum.splits)

lemma andThen_navigations_kept:
  "(\<And>w. navigations (snd (m w)) = navigations w) \<Longrightarrow>
   (\<And>x w. navigations (snd (f x w)) = navigations w) \<Longrightarrow>
     navigations (snd (andThen m f w)) = navigations w"
proof -
  assume m: "\<And>w. navigations (snd (m w)) = navigations w"
    and f: "\<And>x w. navigations (snd (f x w)) = navigations w"
  obtain r w1 where mw: "m w = (r, w1)" by force
  have "navigations w1 = navigations w" using m [of w] mw by simp
  then show ?thesis using mw f by (cases r) (simp_all add: andThen_def)
qed

lemma andThen_extractions_kept:
  "(\<And>w. extractions (snd (m w)) = extractions w) \<Longrightarrow>
   (\<And>x w. extractions (snd (f x w)) = extractions w) \<Longrightarrow>
     extractions (snd (andThen m f w)) = extractions w"
proof -
  assume m: "\<And>w. extractions (snd (m w)) = extractions w"
    and f: "\<And>x w. extractions (snd (f x w)) = extractions w"
  obtain r w1 where mw: "m w = (r, w1)" by force
  have "extractions w1 = extractions w" using m [of w] mw by simp
  then show ?thesis using mw f by (cases r) (simp_all add: andThen_def)
qed

section \<open>Properties of the scrape operations\<close>

lemma names_differ: "PRODUCT_LISTS \<noteq> PRODUCTS" "PRODUCTS \<noteq> PRODUCT_LISTS"
  by (simp_all add: PRODUCTS_def PRODUCT_LISTS_def)

lemma list_scrape_result:
  fixes productList
  defines "productList \<equiv> \<lambda>data t.
     \<lparr>pl_products = map (stampProduct (DateAt t)) (ld_products data),
      pl_category = Some (ld_category data), pl_page = Some 1,
      pl_totalProducts = ld_totalProducts data,
      pl_websiteName = ''Amazon'', pl_dateScraped = DateAt t\<rparr>"
  assumes "goto_ok e url" and "extract_list e url = Some data"
    and "db w \<noteq> None \<or> reachable e" and "\<forall>c d. accepts e c d"
  shows "\<exists>w'. scrapeProductList e url w = (Inr (productList data (clock w + 4000)), w') \<and>
           collections w' = (collections w)
             (PRODUCT_LISTS := collections w PRODUCT_LISTS @
                [ProductListDoc (productList data (clock w + 4000))],
              PRODUCTS := collections w PRODUCTS @
                map ProductDoc (pl_products (productList data (clock w + 4000))))"
proof -
  define w6 where "w6 = w\<lparr>navigations := navigations w @ [url], location := url,
                 clock := clock w + 4000,
                 extractions := extractions w @ [(ListPage, url)]\<rparr>"
  define products where
    "products = map (stampProduct (DateAt (clock w + 4000))) (ld_products data)"
  define pl where "pl = productList data (clock w + 4000)"
  have pl_products: "pl_products pl = products"
    by (simp add: pl_def productList_def products_def)
  have pre: "scrapeProductList e url w =
     andThen (storeData e PRODUCT_LISTS (One (ProductListDoc pl))) (\<lambda>_.
           andThen (storeData e PRODUCTS (Many (map ProductDoc products))) (\<lambda>_ w.
             (Inr pl, w))) w6"
    using assms(2,3)
    by (simp add: scrapeProductList_def andThen_goto andThen_wait andThen_scroll
        andThen_extract newDate_def Let_def w6_def products_def pl_def productList_def
        add.commute [of "clock w" 4000])
  have open6: "db w6 \<noteq> None \<or> reachable e" using assms(4) by (simp add: w6_def)
  define w7 where "w7 = (snd (connectToMongo e w6))
              \<lparr>writes := writes w6 @ [(PRODUCT_LISTS, [ProductListDoc pl])],
               collections := (collections w6)
                 (PRODUCT_LISTS := collections w6 PRODUCT_LISTS @ [ProductListDoc pl])\<rparr>"
  have s1: "storeData e PRODUCT_LISTS (One (ProductListDoc pl)) w6 = (Inr (), w7)"
    unfolding w7_def using open6 assms(5) by (simp add: store_one_accepted)
  have open7: "db w7 \<noteq> None \<or> reachable e"
    using connect_open [OF open6] by (simp add: w7_def)
  obtain w8 where s2: "storeData e PRODUCTS (Many (map ProductDoc products)) w7 = (Inr (), w8)"
    and c8: "collections w8 = (if products = [] then collections w7
                else (collections w7)(PRODUCTS := collections w7 PRODUCTS @ map ProductDoc products))"
    using open7 assms(5) connect_keeps(1) [of e w7]
    by (simp add: store_many_accepted)
  have res: "scrapeProductList e url w = (Inr pl, w8)"
    by (simp add: pre andThen_def s1 s2)
  have c7: "collections w7 = (collections w)
                 (PRODUCT_LISTS := collections w PRODUCT_LISTS @ [ProductListDoc pl])"
    by (simp add: w7_def w6_def)
  have "collections w8 = (collections w)
             (PRODUCT_LISTS := collections w PRODUCT_LISTS @ [ProductListDoc pl],
              PRODUCTS := collections w PRODUCTS @ map ProductDoc (pl_products pl))"
    by (auto simp: c8 c7 pl_products names_differ)
  with res show ?thesis unfolding pl_def by blast
qed

lemma list_navigations:
  "navigations (snd (scrapeProductList e u w)) = navigations w @ [u]"
  by (simp add: scrapeProductList_def andThen_goto andThen_wait andThen_scroll
      andThen_extract Let_def andThen_navigations_kept store_frame split: option.splits)

lemma list_extractions:
  "extractions (snd (scrapeProductList e u w)) =
     extractions w @ (if goto_ok e u then [(ListPage, u)] else [])"
  by (simp add: scrapeProductList_def andThen_goto andThen_wait andThen_scroll
      andThen_extract Let_def andThen_extractions_kept store_frame split: option.splits)

lemma list_returned: "fst (scrapeProductList e u w) = Inr productList \<Longrightarrow> goto_ok e u"
  by (auto simp: scrapeProductList_def andThen_goto split: if_splits)

lemma details_navigations:
  "navigations (snd (scrapeProductDetails e u w)) = navigations w @ [u]"
  by (simp add: scrapeProductDetails_def andThen_goto andThen_wait andThen_scroll
      andThen_extract Let_def andThen_pure store_frame split: option.splits)

lemma details_extractions:
  "extractions (snd (scrapeProductDetails e u w)) =
     extractions w @ (if goto_ok e u then [(DetailPage, u)] else [])"
  by (simp add: scrapeProductDetails_def andThen_goto andThen_wait andThen_scroll
      andThen_extract Let_def andThen_pure store_frame split: option.splits)

lemma details_errors_grow:
  "prefix xs (console_errors w) \<Longrightarrow>
     prefix xs (console_errors (snd (scrapeProductDetails e u w)))"
  by (simp add: scrapeProductDetails_def andThen_goto andThen_wait andThen_scroll
      andThen_extract Let_def andThen_pure store_errors_grow split: option.splits)

lemma details_ok:
  assumes "reachable e" "\<forall>c d. accepts e c d" "goto_ok e u" "extract_detail e u \<noteq> None"
  shows "\<exists>detailed. fst (scrapeProductDetails e u w) = Inr detailed"
  using assms
  by (auto simp: scrapeProductDetails_def andThen_goto andThen_wait andThen_scroll
      andThen_extract Let_def andThen_pure_fst store_one_ok)

lemma reviews_navigations:
  "navigations (snd (scrapeProductReviews e u w)) = navigations w @ [reviewsUrl u]"
  by (simp add: scrapeProductReviews_def andThen_goto andThen_wait
      andThen_extract Let_def store_frame split: option.splits)

lemma reviews_extractions:
  "extractions (snd (scrapeProductReviews e u w)) =
     extractions w @ (if goto_ok e (reviewsUrl u) then [(ReviewsPage, reviewsUrl u)] else [])"
  by (simp add: scrapeProductReviews_def andThen_goto andThen_wait
      andThen_extract Let_def store_frame split: option.splits)

lemma reviews_errors_grow:
  "prefix xs (console_errors w) \<Longrightarrow>
     prefix xs (console_errors (snd (scrapeProductReviews e u w)))"
  by (simp add: scrapeProductReviews_def andThen_goto andThen_wait
      andThen_extract Let_def store_errors_grow split: option.splits)

lemma reviews_ok:
  assumes "reachable e" "\<forall>c d. accepts e c d" "goto_ok e (reviewsUrl u)"
    "extract_reviews e (reviewsUrl u) \<noteq> None"
  shows "fst (scrapeProductReviews e u w) = Inr ()"
  using assms
  by (auto simp: scrapeProductReviews_def andThen_goto andThen_wait
      andThen_extract Let_def store_many_ok)

section \<open>Properties of the orchestrator\<close>

lemma tryBlock_navigations:
  "navigations (snd (tryBlock e item w)) =
     navigations w @ p_url item #
       (case fst (scrapeProductDetails e (p_url item) w) of
          Inl err \<Rightarrow> [] | Inr detailed \<Rightarrow> [reviewsUrl (p_url item)])"
proof (cases "scrapeProductDetails e (p_url item) w")
  case (Pair r w1)
  have n1: "navigations w1 = navigations w @ [p_url item]"
    using details_navigations [of e "p_url item" w] Pair by simp
  show ?thesis
  proof (cases r)
    case (Inl err)
    with Pair n1 show ?thesis by (simp add: tryBlock_def andThen_def)
  next
    case (Inr detailed)
    have "navigations (snd (scrapeProductReviews e (p_url item) w1)) =
            navigations w1 @ [reviewsUrl (p_url item)]"
      by (rule reviews_navigations)
    with Pair Inr n1 show ?thesis
      by (auto simp: tryBlock_def andThen_def waitForTimeout_def split: prod.splits sum.splits)
  qed
qed

lemma tryBlock_extractions:
  "extractions (snd (tryBlock e item w)) =
     extractions w @ (if goto_ok e (p_url item) then [(DetailPage, p_url item)] else []) @
       (case fst (scrapeProductDetails e (p_url item) w) of
          Inl err \<Rightarrow> []
        | Inr detailed \<Rightarrow>
            if goto_ok e (reviewsUrl (p_url item))
            then [(ReviewsPage, reviewsUrl (p_url item))] else [])"
proof (cases "scrapeProductDetails e (p_url item) w")
  case (Pair r w1)
  have n1: "extractions w1 =
      extractions w @ (if goto_ok e (p_url item) then [(DetailPage, p_url item)] else [])"
    using details_extractions [of e "p_url item" w] Pair by simp
  show ?thesis
  proof (cases r)
    case (Inl err)
    with Pair n1 show ?thesis by (simp add: tryBlock_def andThen_def)
  next
    case (Inr detailed)
    have "extractions (snd (scrapeProductReviews e (p_url item) w1)) =
            extractions w1 @ (if goto_ok e (reviewsUrl (p_url item))
            then [(ReviewsPage, reviewsUrl (p_url item))] else [])"
      by (rule reviews_extractions)
    with Pair Inr n1 show ?thesis
      by (auto simp: tryBlock_def andThen_def waitForTimeout_def split: prod.splits sum.splits)
  qed
qed

lemma tryBlock_errors_grow:
  "prefix xs (console_errors w) \<Longrightarrow> prefix xs (console_errors (snd (tryBlock e item w)))"
proof -
  assume p: "prefix xs (console_errors w)"
  obtain r w1 where d: "scrapeProductDetails e (p_url item) w = (r, w1)" by force
  have p1: "prefix xs (console_errors w1)"
    using details_errors_grow [OF p, of e "p_url item"] d by simp
  have p2: "prefix xs (console_errors (snd (scrapeProductReviews e (p_url item) w1)))"
    by (rule reviews_errors_grow [OF p1])
  show ?thesis using d p1 p2
    by (auto simp: tryBlock_def andThen_def waitForTimeout_def split: prod.splits sum.splits)
qed

lemma loopBody_navigations:
  "navigations (loopBody e item w) = navigations (snd (tryBlock e item w))"
  by (simp add: loopBody_def console_error_def split: prod.splits sum.splits)

lemma loopBody_extractions:
  "extractions (loopBody e item w) = extractions (snd (tryBlock e item w))"
  by (simp add: loopBody_def console_error_def split: prod.splits sum.splits)

lemma loopBody_errors_grow:
  "prefix xs (console_errors w) \<Longrightarrow> prefix xs (console_errors (loopBody e item w))"
  using tryBlock_errors_grow [of xs w e item]
  by (auto simp: loopBody_def console_error_def split: prod.splits sum.splits)

lemma loopBody_dependable:
  assumes "dependable e"
  shows "navigations (loopBody e item w) =
           navigations w @ [p_url item, reviewsUrl (p_url item)]"
    and "extractions (loopBody e item w) =
           extractions w @ [(DetailPage, p_url item), (ReviewsPage, reviewsUrl (p_url item))]"
proof -
  obtain detailed where "fst (scrapeProductDetails e (p_url item) w) = Inr detailed"
    using assms details_ok [of e "p_url item" w] by (auto simp: dependable_def)
  then show "navigations (loopBody e item w) =
           navigations w @ [p_url item, reviewsUrl (p_url item)]"
    and "extractions (loopBody e item w) =
           extractions w @ [(DetailPage, p_url item), (ReviewsPage, reviewsUrl (p_url item))]"
    using assms
    by (simp_all add: loopBody_navigations tryBlock_navigations loopBody_extractions
        tryBlock_extractions dependable_def)
qed

lemma forEach_append:
  "forEachProduct e (xs @ ys) w = forEachProduct e ys (forEachProduct e xs w)"
  by (induction xs arbitrary: w) simp_all

lemma forEach_errors_grow:
  "prefix xs (console_errors w) \<Longrightarrow> prefix xs (console_errors (forEachProduct e items w))"
  by (induction items arbitrary: w) (simp_all add: loopBody_errors_grow)

lemma forEach_navigations:
  "\<exists>rest. navigations (forEachProduct e items w) = navigations w @ rest \<and>
          p_url ` set items \<subseteq> set rest"
proof (induction items arbitrary: w)
  case Nil
  then show ?case by simp
next
  case (Cons item items)
  obtain tl1 where n1: "navigations (loopBody e item w) = navigations w @ p_url item # tl1"
    by (simp add: loopBody_navigations tryBlock_navigations)
  obtain rest where n2: "navigations (forEachProduct e items (loopBody e item w)) =
      navigations (loopBody e item w) @ rest" and sub: "p_url ` set items \<subseteq> set rest"
    using Cons.IH by blast
  have "navigations (forEachProduct e (item # items) w) = navigations w @ (p_url item # tl1 @ rest)"
    using n1 n2 by simp
  moreover have "p_url ` set (item # items) \<subseteq> set (p_url item # tl1 @ rest)"
    using sub by auto
  ultimately show ?case by blast
qed

lemma forEach_dependable:
  assumes "dependable e"
  shows "navigations (forEachProduct e items w) =
           navigations w @ concat (map (\<lambda>item. [p_url item, reviewsUrl (p_url item)]) items) \<and>
         extractions (forEachProduct e items w) =
           extractions w @ concat (map (\<lambda>item. [(DetailPage, p_url item),
                                     (ReviewsPage, reviewsUrl (p_url item))]) items)"
  by (induction items arbitrary: w) (simp_all add: loopBody_dependable [OF assms])

lemma forEach_shape:
  "\<exists>flags. length flags = length items \<and>
     navigations (forEachProduct e items w) =
       navigations w @
       concat (map2 (\<lambda>item ok. p_url item # (if ok then [reviewsUrl (p_url item)] else []))
                 items flags)"
proof (induction items arbitrary: w)
  case Nil
  then show ?case by simp
next
  case (Cons item items)
  obtain ok where n1: "navigations (loopBody e item w) =
      navigations w @ p_url item # (if ok then [reviewsUrl (p_url item)] else [])"
    by (cases "fst (scrapeProductDetails e (p_url item) w)")
       (simp_all add: loopBody_navigations tryBlock_navigations, metis+)
  obtain flags where l: "length flags = length items"
    and n2: "navigations (forEachProduct e items (loopBody e item w)) =
       navigations (loopBody e item w) @
       concat (map2 (\<lambda>item ok. p_url item # (if ok then [reviewsUrl (p_url item)] else []))
                 items flags)"
    using Cons.IH by blast
  have "length (ok # flags) = length (item # items)" using l by simp
  moreover have "navigations (forEachProduct e (item # items) w) =
       navigations w @
       concat (map2 (\<lambda>item ok. p_url item # (if ok then [reviewsUrl (p_url item)] else []))
                 (item # items) (ok # flags))"
    using n1 n2 by simp
  ultimately show ?case by blast
qed

lemma reporting_frame:
  "navigations (snd (reporting e bc hr w)) = navigations w"
  "extractions (snd (reporting e bc hr w)) = extractions w"
proof -
  obtain r w1 where a: "aggregateData e PRODUCTS bc w = (r, w1)" by force
  have n1: "navigations w1 = navigations w" "extractions w1 = extractions w"
    using aggregate_frame [of e PRODUCTS bc w] a by simp_all
  have n2: "navigations (snd (findData e PRODUCTS hr w1)) = navigations w1"
    "extractions (snd (findData e PRODUCTS hr w1)) = extractions w1"
    by (rule find_frame)+
  show "navigations (snd (reporting e bc hr w)) = navigations w"
    using a n1 n2 by (auto simp: reporting_def andThen_def split: prod.splits sum.splits)
  show "extractions (snd (reporting e bc hr w)) = extractions w"
    using a n1 n2 by (auto simp: reporting_def andThen_def split: prod.splits sum.splits)
qed

lemma main_after_list:
  assumes "fst (connectToMongo e w) = Inr h"
    and "scrapeProductList e categoryUrl (snd (connectToMongo e w)) = (Inr productList, w2)"
  shows "navigations (main e bc hr w) =
           navigations (forEachProduct e (take 3 (pl_products productList)) w2)"
    and "extractions (main e bc hr w) =
           extractions (forEachProduct e (take 3 (pl_products productList)) w2)"
proof -
  obtain r w3 where rep: "reporting e bc hr (forEachProduct e (take 3 (pl_products productList)) w2)
      = (r, w3)" by force
  have n3: "navigations w3 = navigations (forEachProduct e (take 3 (pl_products productList)) w2)"
    "extractions w3 = extractions (forEachProduct e (take 3 (pl_products productList)) w2)"
    using reporting_frame [of e bc hr "forEachProduct e (take 3 (pl_products productList)) w2"] rep
    by simp_all
  obtain w1 where c: "connectToMongo e w = (Inr h, w1)"
    using assms(1) by (cases "connectToMongo e w") simp
  have l: "scrapeProductList e categoryUrl w1 = (Inr productList, w2)"
    using assms(2) c by simp
  have m: "main e bc hr w =
      closeMongo (case r of Inl err \<Rightarrow> console_error (RunFailed err) w3 | Inr _ \<Rightarrow> w3)"
    using c l rep by (simp add: main_def andThen_def Let_def split: sum.splits)
  show "navigations (main e bc hr w) =
           navigations (forEachProduct e (take 3 (pl_products productList)) w2)"
    using n3 by (simp add: m close_frame console_error_def split: sum.splits)
  show "extractions (main e bc hr w) =
           extractions (forEachProduct e (take 3 (pl_products productList)) w2)"
    using n3 by (simp add: m close_frame console_error_def split: sum.splits)
qed

lemma tryBlock_flaky: "fst (tryBlock flakyEnv itemA world0) = Inl NavigationError"
proof -
  have "fst (scrapeProductDetails flakyEnv ''https://site/dp/A'' world0) = Inl NavigationError"
    by (simp add: scrapeProductDetails_def andThen_goto flakyEnv_def mockEnv_def)
  moreover have "p_url itemA = ''https://site/dp/A''"
    by (simp add: itemA_def stampProduct_def entryOf_def)
  ultimately show ?thesis
    by (simp add: tryBlock_def andThen_fails)
qed

section \<open>Properties of the price-range aggregation\<close>

lemma price_texts:
  "fieldsOf (ProductDoc itemA) =
     [(''name'', Text ''A''), (''price'', Text ''$19.99''), (''url'', Text ''https://site/dp/A''),
      (''dateScraped'', Opaque)]"
  "fieldsOf (ProductDoc itemB) =
     [(''name'', Text ''B''), (''price'', Text ''$1,234.56''),
      (''url'', Text ''https://site/dp/B''), (''dateScraped'', Opaque)]"
  by (simp_all add: itemA_def itemB_def stampProduct_def entryOf_def optional_def)

lemma parse_prices:
  "parseDecimal ''19.99'' = Some 19.99" "parseDecimal ''1234.56'' = Some 1234.56"
  by (simp_all add: parseDecimal_def digitOf_def)

lemma price_range_rejected:
  "priceRangePipeline Rejected docs = Inl ReadError"
  by (simp add: priceRangePipeline_def priceRange_def numericPrice_def)

lemma price_range_missing:
  "priceRangePipeline Missing [ProductDoc itemA, ProductDoc itemB] =
     Inr [\<lparr>avgPrice = Null, minPrice = Null, maxPrice = Null\<rparr>]"
  by (simp add: priceRangePipeline_def priceRange_def numericPrice_def price_texts operand_def
      avg_def minOf_def maxOf_def numbersOf_def del: fieldsOf.simps)

lemma price_range_literal:
  "priceRange numericPriceLiteral policy [ProductDoc itemA, ProductDoc itemB] =
     Inr [\<lparr>avgPrice = Number 627.275, minPrice = Number 19.99, maxPrice = Number 1234.56\<rparr>]"
  by (simp add: priceRange_def numericPriceLiteral_def price_texts operand_def parse_prices
      avg_def minOf_def maxOf_def numbersOf_def del: fieldsOf.simps)

lemma stored_two:
  "collections (snd (storeData mockEnv PRODUCTS (Many [ProductDoc itemA, ProductDoc itemB]) world0))
     PRODUCTS = [ProductDoc itemA, ProductDoc itemB]"
  "db (snd (storeData mockEnv PRODUCTS (Many [ProductDoc itemA, ProductDoc itemB]) world0)) = Some 1"
  by (simp_all add: store_many_accepted connect_cases mockEnv_def world0_def)

lemma aggregate_open:
  "db w = Some h \<Longrightarrow> readable e \<Longrightarrow>
     fst (aggregateData e c pipeline w) = pipeline (collections w c)"
  by (cases "pipeline (collections w c)")
     (simp_all add: aggregateData_def andThen_def catchLog_def connect_cases)

section \<open>The claims\<close>

text \<open>
  C1, as amended. Whenever \<^verbatim>\<open>storeData\<close> completes without error, an array of
  \<open>N > 0\<close> records has added exactly those \<open>N\<close> documents to the end of the target
  collection in one insert call and has left every other collection alone, and a single
  record has added exactly one document. An empty array never writes anything, and raises
  no error provided the connection is open or can be opened. The calls do complete
  without error when the connection is open or can be opened and the store accepts the
  documents. With no open connection and an unreachable store every call raises the
  connection error, whatever the data: the connection is obtained before the data is
  looked at.
\<close>

theorem store_data_effect:
  "(fst (storeData e c (Many ds) w) = Inr () \<and> ds \<noteq> [] \<longrightarrow>
      collections (snd (storeData e c (Many ds) w)) c = collections w c @ ds \<and>
      (\<forall>c'. c' \<noteq> c \<longrightarrow> collections (snd (storeData e c (Many ds) w)) c' = collections w c') \<and>
      writes (snd (storeData e c (Many ds) w)) = writes w @ [(c, ds)]) \<and>
   (fst (storeData e c (One d) w) = Inr () \<longrightarrow>
      collections (snd (storeData e c (One d) w)) c = collections w c @ [d] \<and>
      (\<forall>c'. c' \<noteq> c \<longrightarrow> collections (snd (storeData e c (One d) w)) c' = collections w c') \<and>
      writes (snd (storeData e c (One d) w)) = writes w @ [(c, [d])]) \<and>
   collections (snd (storeData e c (Many []) w)) = collections w \<and>
   writes (snd (storeData e c (Many []) w)) = writes w \<and>
   (db w \<noteq> None \<or> reachable e \<longrightarrow> fst (storeData e c (Many []) w) = Inr ()) \<and>
   ((db w \<noteq> None \<or> reachable e) \<and> (\<forall>d \<in> set ds. accepts e c d) \<longrightarrow>
      fst (storeData e c (Many ds) w) = Inr ()) \<and>
   ((db w \<noteq> None \<or> reachable e) \<and> accepts e c d \<longrightarrow>
      fst (storeData e c (One d) w) = Inr ()) \<and>
   (db w = None \<and> \<not> reachable e \<longrightarrow> fst (storeData e c data w) = Inl ConnectionError)"
  using store_many_effect [of e c ds w] store_one_effect [of e c d w]
    store_empty_effect [of e c w] store_empty_ok [of w e c] store_many_ok [of w e ds c]
    store_one_ok [of w e c d] store_unreachable [of w e c data]
  by blast

theorem store_data_effect_witness:
  "fst (storeData mockEnv PRODUCTS (Many [ProductDoc itemA, ProductDoc itemB]) world0) = Inr () \<and>
   collections (snd (storeData mockEnv PRODUCTS (Many [ProductDoc itemA, ProductDoc itemB]) world0))
     PRODUCTS = [ProductDoc itemA, ProductDoc itemB] \<and>
   writes (snd (storeData mockEnv PRODUCTS (Many [ProductDoc itemA, ProductDoc itemB]) world0)) =
     [(PRODUCTS, [ProductDoc itemA, ProductDoc itemB])] \<and>
   fst (storeData mockEnv PRODUCTS (One (ProductDoc itemA)) world0) = Inr () \<and>
   collections (snd (storeData mockEnv PRODUCTS (One (ProductDoc itemA)) world0)) PRODUCTS =
     [ProductDoc itemA] \<and>
   fst (storeData mockEnv PRODUCTS (Many []) world0) = Inr () \<and>
   writes (snd (storeData mockEnv PRODUCTS (Many []) world0)) = [] \<and>
   db world0 = None \<and> \<not> reachable downEnv \<and>
   fst (storeData downEnv PRODUCTS (One (ProductDoc itemA)) world0) = Inl ConnectionError"
  using store_data_effect [of mockEnv PRODUCTS "[ProductDoc itemA, ProductDoc itemB]" world0 "ProductDoc itemA"]
    store_data_effect [of downEnv PRODUCTS "[]" world0 "ProductDoc itemA" "One (ProductDoc itemA)"]
  by (simp add: mockEnv_def downEnv_def world0_def)

text \<open>
  The claim as first stated fails: storing an empty array in a freshly loaded program
  whose store is unreachable raises the connection error.
\<close>

theorem store_empty_unreachable_counterexample:
  "fst (storeData downEnv PRODUCTS (Many []) world0) = Inl ConnectionError"
  by (simp add: storeData_def andThen_def connect_cases downEnv_def mockEnv_def world0_def)

text \<open>
  C2. Connecting is idempotent: after a successful \<^verbatim>\<open>connectToMongo\<close> that returned the
  handle \<open>h\<close> and left the state \<open>w1\<close>, the next call returns the same handle \<open>h\<close> and
  leaves the state as it is, whatever the store's condition then is; no session is
  established. As the state is unchanged, the same holds for every call after it.
\<close>

theorem connect_idempotent:
  "connectToMongo e w = (Inr h, w1) \<Longrightarrow>
     connectToMongo e' w1 = (Inr h, w1) \<and> db w1 = Some h \<and>
     sessions (snd (connectToMongo e' w1)) = sessions w1"
  by (auto simp: connect_cases split: option.splits if_splits)

theorem connect_idempotent_witness:
  "connectToMongo mockEnv world0 = (Inr 1, snd (connectToMongo mockEnv world0)) \<and>
   connectToMongo downEnv (snd (connectToMongo mockEnv world0)) = (Inr 1, snd (connectToMongo mockEnv world0)) \<and>
   sessions (snd (connectToMongo downEnv (snd (connectToMongo mockEnv world0)))) = 1"
proof -
  have h: "connectToMongo mockEnv world0 = (Inr 1, snd (connectToMongo mockEnv world0))"
    by (simp add: connect_cases mockEnv_def world0_def)
  have s: "sessions (snd (connectToMongo mockEnv world0)) = 1"
    by (simp add: connect_cases mockEnv_def world0_def)
  show ?thesis using h s connect_idempotent [OF h, of downEnv] by simp
qed

text \<open>
  C3. When the list page is reached, the extraction returns \<open>data\<close> with \<open>K\<close> product
  entries and the store takes the documents, \<^verbatim>\<open>scrapeProductList\<close> returns a product
  list whose products are the \<open>K\<close> entries, each stamped with the capture time, and which
  carries the website name Amazon, page 1 and the capture time; exactly this one product
  list has been added to \<^verbatim>\<open>product_lists\<close>, exactly its \<open>K\<close> products to \<^verbatim>\<open>products\<close>, and
  no other collection has changed.
\<close>

theorem list_scrape_persists:
  assumes "goto_ok e url" and "extract_list e url = Some data"
    and "db w \<noteq> None \<or> reachable e" and "\<forall>c d. accepts e c d"
  shows "case scrapeProductList e url w of
           (Inl err, w') \<Rightarrow> False
         | (Inr productList, w') \<Rightarrow>
             pl_products productList =
               map (stampProduct (DateAt (clock w + 4000))) (ld_products data) \<and>
             length (pl_products productList) = length (ld_products data) \<and>
             pl_websiteName productList = ''Amazon'' \<and>
             pl_page productList = Some 1 \<and>
             pl_dateScraped productList = DateAt (clock w + 4000) \<and>
             (\<forall>p \<in> set (pl_products productList).
                p_dateScraped p = DateAt (clock w + 4000)) \<and>
             collections w' PRODUCT_LISTS =
               collections w PRODUCT_LISTS @ [ProductListDoc productList] \<and>
             collections w' PRODUCTS =
               collections w PRODUCTS @ map ProductDoc (pl_products productList) \<and>
             (\<forall>c. c \<noteq> PRODUCT_LISTS \<and> c \<noteq> PRODUCTS \<longrightarrow> collections w' c = collections w c)"
  using list_scrape_result [OF assms] by (auto simp: names_differ stampProduct_def)

theorem list_scrape_persists_witness:
  "goto_ok mockEnv categoryUrl \<and>
   length (ld_products \<lparr>ld_products = fiveEntries, ld_category = ''laptops'',
                     ld_totalProducts = None\<rparr>) = 5 \<and>
   length (collections (snd (scrapeProductList mockEnv categoryUrl world0)) PRODUCT_LISTS) = 1 \<and>
   length (collections (snd (scrapeProductList mockEnv categoryUrl world0)) PRODUCTS) = 5 \<and>
   collections (snd (scrapeProductList mockEnv categoryUrl world0)) REVIEWS = []"
  using list_scrape_persists [of mockEnv categoryUrl "\<lparr>ld_products = fiveEntries, ld_category = ''laptops'',
                     ld_totalProducts = None\<rparr>" world0]
  by (auto simp: mockEnv_def world0_def fiveEntries_def PRODUCTS_def PRODUCT_LISTS_def REVIEWS_def
      split: prod.splits sum.splits)

text \<open>
  C4. The reviews URL: when the product URL contains \<^verbatim>\<open>/dp/\<close>, its leftmost occurrence
  is replaced by \<^verbatim>\<open>/product-reviews/\<close> and the text before and after it is kept; when
  the URL does not contain \<^verbatim>\<open>/dp/\<close>, the reviews URL is the product URL; and
  \<^verbatim>\<open>https://site/dp/ABC123\<close> gives \<^verbatim>\<open>https://site/product-reviews/ABC123\<close>.
\<close>

theorem reviews_url_derivation: "(includes_str url ''/dp/'' \<longrightarrow>
      (\<exists>pre post. url = pre @ ''/dp/'' @ post \<and> \<not> includes_str (pre @ ''/dp'') ''/dp/'' \<and>
         reviewsUrl url = pre @ ''/product-reviews/'' @ post)) \<and>
   (\<not> includes_str url ''/dp/'' \<longrightarrow> reviewsUrl url = url) \<and>
   reviewsUrl ''https://site/dp/ABC123'' = ''https://site/product-reviews/ABC123''"
proof (intro conjI impI)
  assume inc: "includes_str url ''/dp/''"
  have ne: "''/dp/'' \<noteq> []" by simp
  obtain pre post where eq: "url = pre @ ''/dp/'' @ post"
    and first: "\<not> includes_str (pre @ butlast ''/dp/'') ''/dp/''"
    using leftmost_exists [OF ne inc] by blast
  have "replace url ''/dp/'' ''/product-reviews/'' = pre @ ''/product-reviews/'' @ post"
    unfolding eq by (rule replace_leftmost [OF ne first])
  then have "reviewsUrl url = pre @ ''/product-reviews/'' @ post"
    using inc by (simp add: reviewsUrl_def)
  moreover have "\<not> includes_str (pre @ ''/dp'') ''/dp/''" using first by simp
  ultimately show "\<exists>pre post. url = pre @ ''/dp/'' @ post \<and> \<not> includes_str (pre @ ''/dp'') ''/dp/'' \<and>
         reviewsUrl url = pre @ ''/product-reviews/'' @ post" using eq by blast
next
  assume "\<not> includes_str url ''/dp/''"
  then show "reviewsUrl url = url" by (simp add: reviewsUrl_def)
next
  show "reviewsUrl ''https://site/dp/ABC123'' = ''https://site/product-reviews/ABC123''"
    by (simp add: reviewsUrl_def)
qed

theorem reviews_url_derivation_witness: "includes_str ''https://site/dp/ABC123'' ''/dp/'' \<and>
   reviewsUrl ''https://site/dp/ABC123'' = ''https://site/product-reviews/ABC123'' \<and>
   \<not> includes_str ''https://site/gp/ABC123'' ''/dp/'' \<and>
   reviewsUrl ''https://site/gp/ABC123'' = ''https://site/gp/ABC123''"
  using reviews_url_derivation [of "''https://site/dp/ABC123''"] reviews_url_derivation [of "''https://site/gp/ABC123''"]
  by simp

text \<open>
  C5, as amended. The review post-processing turns every extracted entry into one record,
  in order; the record's verified flag is true, its capture time is set, its product
  reference is the one the extraction returned, and its date is the date parsed from the
  entry's date text when that text is present and not empty, and absent when the text is
  missing or empty.
\<close>

theorem review_postprocessing:
  assumes "i < length (rd_reviews data)"
  shows "length (processReviews data now) = length (rd_reviews data) \<and>
         r_verified (processReviews data now ! i) = True \<and>
         r_dateScraped (processReviews data now ! i) = now \<and>
         r_productId (processReviews data now ! i) = rd_productId data \<and>
         (re_date (rd_reviews data ! i) = None \<or> re_date (rd_reviews data ! i) = Some [] \<longrightarrow>
            r_date (processReviews data now ! i) = None) \<and>
         (\<forall>text. re_date (rd_reviews data ! i) = Some text \<and> text \<noteq> [] \<longrightarrow>
            r_date (processReviews data now ! i) = Some (DateParsed text))"
  using assms by (auto simp: processReviews_def processReview_def)

theorem review_postprocessing_witness:
  "r_verified (processReviews \<lparr>rd_productId = ''B0'',
       rd_reviews = [entryDated (Some ''2024-01-05''), entryDated None]\<rparr> (DateAt 7) ! 0) \<and>
   r_date (processReviews \<lparr>rd_productId = ''B0'',
       rd_reviews = [entryDated (Some ''2024-01-05''), entryDated None]\<rparr> (DateAt 7) ! 0) =
     Some (DateParsed ''2024-01-05'') \<and>
   r_date (processReviews \<lparr>rd_productId = ''B0'',
       rd_reviews = [entryDated (Some ''2024-01-05''), entryDated None]\<rparr> (DateAt 7) ! 1) = None \<and>
   r_dateScraped (processReviews \<lparr>rd_productId = ''B0'',
       rd_reviews = [entryDated (Some ''2024-01-05''), entryDated None]\<rparr> (DateAt 7) ! 1) = DateAt 7"
  using review_postprocessing [of 0 "\<lparr>rd_productId = ''B0'',
       rd_reviews = [entryDated (Some ''2024-01-05''), entryDated None]\<rparr>" "DateAt 7"]
    review_postprocessing [of 1 "\<lparr>rd_productId = ''B0'',
       rd_reviews = [entryDated (Some ''2024-01-05''), entryDated None]\<rparr>" "DateAt 7"]
  by (simp add: entryDated_def)

text \<open>
  The claim as first stated fails: an entry whose date text is present but empty gets no
  date.
\<close>

theorem review_empty_date_counterexample:
  "re_date (entryDated (Some [])) = Some [] \<and>
   r_date (processReviews \<lparr>rd_productId = ''B0'', rd_reviews = [entryDated (Some [])]\<rparr> (DateAt 0) ! 0) = None"
  by (simp add: processReviews_def processReview_def entryDated_def)

text \<open>
  C6. On a products collection whose stored prices are \<^verbatim>\<open>$19.99\<close> and \<^verbatim>\<open>$1,234.56\<close>, the
  price-range aggregation of the program does not yield the average 627.275, the minimum
  19.99 and the maximum 1234.56. The text to find, \<^verbatim>\<open>"$"\<close>, is a field path with no name:
  a store that refuses such a path fails the call, and a store that reads it as a missing
  field returns null for all three statistics. The same pipeline with the dollar sign
  written as a literal strips the currency sign and the separator, and yields exactly the
  three values.
\<close>

theorem price_range_pipeline_diverges:
  "map (operand ''$price'' \<circ> fieldsOf)
     (collections
        (snd (storeData mockEnv PRODUCTS (Many [ProductDoc itemA, ProductDoc itemB]) world0))
        PRODUCTS) = [Text ''$19.99'', Text ''$1,234.56''] \<and>
   fst (aggregateData mockEnv PRODUCTS (priceRangePipeline Rejected)
          (snd (storeData mockEnv PRODUCTS (Many [ProductDoc itemA, ProductDoc itemB]) world0))) =
     Inl ReadError \<and>
   fst (aggregateData mockEnv PRODUCTS (priceRangePipeline Missing)
          (snd (storeData mockEnv PRODUCTS (Many [ProductDoc itemA, ProductDoc itemB]) world0))) =
     Inr [\<lparr>avgPrice = Null, minPrice = Null, maxPrice = Null\<rparr>] \<and>
   fst (aggregateData mockEnv PRODUCTS (priceRange numericPriceLiteral Rejected)
          (snd (storeData mockEnv PRODUCTS (Many [ProductDoc itemA, ProductDoc itemB]) world0))) =
     Inr [\<lparr>avgPrice = Number 627.275, minPrice = Number 19.99, maxPrice = Number 1234.56\<rparr>]"
proof -
  have r: "readable mockEnv" by (simp add: mockEnv_def)
  show ?thesis
    by (simp add: aggregate_open [OF stored_two(2) r] stored_two(1) price_range_rejected
        price_range_missing price_range_literal price_texts operand_def del: fieldsOf.simps)
qed

text \<open>
  C7. For every product list that the list scrape returns to \<^verbatim>\<open>main\<close>, the pages
  visited after the list page belong to the first three products of the list (to all of
  them when there are fewer), in order: for each, its product page and then, unless the
  detail scrape failed, its reviews page. When nothing fails, the detail extraction and
  the reviews extraction run for exactly these products, once each and in order,
  whatever the length of the list.
\<close>

theorem orchestrator_first_three:
  assumes "fst (connectToMongo e w) = Inr h"
    and "scrapeProductList e categoryUrl (snd (connectToMongo e w)) = (Inr productList, w2)"
  shows "(\<exists>flags. length flags = min 3 (length (pl_products productList)) \<and>
            navigations (main e bc hr w) =
              navigations w @ categoryUrl #
              concat (map2 (\<lambda>item ok. p_url item # (if ok then [reviewsUrl (p_url item)] else []))
                        (take 3 (pl_products productList)) flags)) \<and>
         (dependable e \<longrightarrow>
            navigations (main e bc hr w) =
              navigations w @ categoryUrl #
              concat (map (\<lambda>item. [p_url item, reviewsUrl (p_url item)])
                        (take 3 (pl_products productList))) \<and>
            extractions (main e bc hr w) =
              extractions w @ (ListPage, categoryUrl) #
              concat (map (\<lambda>item. [(DetailPage, p_url item),
                                     (ReviewsPage, reviewsUrl (p_url item))])
                        (take 3 (pl_products productList))))"
proof -
  let ?items = "take 3 (pl_products productList)"
  have n2: "navigations w2 = navigations w @ [categoryUrl]"
    using list_navigations [of e categoryUrl "snd (connectToMongo e w)"] assms(2)
    by (simp add: connect_keeps)
  have "goto_ok e categoryUrl"
    using assms(2) list_returned [of e categoryUrl "snd (connectToMongo e w)" productList] by simp
  then have x2: "extractions w2 = extractions w @ [(ListPage, categoryUrl)]"
    using list_extractions [of e categoryUrl "snd (connectToMongo e w)"] assms(2)
    by (simp add: connect_keeps)
  obtain flags where l: "length flags = length ?items"
    and sh: "navigations (forEachProduct e ?items w2) =
       navigations w2 @
       concat (map2 (\<lambda>item ok. p_url item # (if ok then [reviewsUrl (p_url item)] else []))
                 ?items flags)"
    using forEach_shape by blast
  have first: "\<exists>flags. length flags = min 3 (length (pl_products productList)) \<and>
            navigations (main e bc hr w) =
              navigations w @ categoryUrl #
              concat (map2 (\<lambda>item ok. p_url item # (if ok then [reviewsUrl (p_url item)] else []))
                        ?items flags)"
  proof -
    have "length flags = min 3 (length (pl_products productList))" using l by (simp add: min.commute)
    moreover have "navigations (main e bc hr w) =
              navigations w @ categoryUrl #
              concat (map2 (\<lambda>item ok. p_url item # (if ok then [reviewsUrl (p_url item)] else []))
                        ?items flags)"
      using main_after_list(1) [OF assms] sh n2 by simp
    ultimately show ?thesis by blast
  qed
  have second: "dependable e \<longrightarrow>
            navigations (main e bc hr w) =
              navigations w @ categoryUrl #
              concat (map (\<lambda>item. [p_url item, reviewsUrl (p_url item)]) ?items) \<and>
            extractions (main e bc hr w) =
              extractions w @ (ListPage, categoryUrl) #
              concat (map (\<lambda>item. [(DetailPage, p_url item),
                                     (ReviewsPage, reviewsUrl (p_url item))]) ?items)"
  proof
    assume d: "dependable e"
    show "navigations (main e bc hr w) =
              navigations w @ categoryUrl #
              concat (map (\<lambda>item. [p_url item, reviewsUrl (p_url item)]) ?items) \<and>
            extractions (main e bc hr w) =
              extractions w @ (ListPage, categoryUrl) #
              concat (map (\<lambda>item. [(DetailPage, p_url item),
                                     (ReviewsPage, reviewsUrl (p_url item))]) ?items)"
      using forEach_dependable [OF d, of ?items w2] main_after_list [OF assms, of bc hr] n2 x2
      by simp
  qed
  from first second show ?thesis by blast
qed

theorem orchestrator_first_three_witness:
  "dependable mockEnv \<and>
   length fiveEntries = 5 \<and>
   navigations (main mockEnv (\<lambda>_. Inr []) (\<lambda>_. True) world0) =
     [categoryUrl,
      ''https://site/dp/A'', ''https://site/product-reviews/A'',
      ''https://site/dp/B'', ''https://site/product-reviews/B'',
      ''https://site/gp/C'', ''https://site/gp/C''] \<and>
   extractions (main mockEnv (\<lambda>_. Inr []) (\<lambda>_. True) world0) =
     [(ListPage, categoryUrl),
      (DetailPage, ''https://site/dp/A''), (ReviewsPage, ''https://site/product-reviews/A''),
      (DetailPage, ''https://site/dp/B''), (ReviewsPage, ''https://site/product-reviews/B''),
      (DetailPage, ''https://site/gp/C''), (ReviewsPage, ''https://site/gp/C'')]"
proof -
  have d: "dependable mockEnv" by (simp add: dependable_def mockEnv_def)
  have c: "fst (connectToMongo mockEnv world0) = Inr 1"
    by (simp add: connect_cases mockEnv_def world0_def)
  let ?w1 = "snd (connectToMongo mockEnv world0)"
  let ?data = "\<lparr>ld_products = fiveEntries, ld_category = ''laptops'', ld_totalProducts = None\<rparr>"
  have "goto_ok mockEnv categoryUrl" "extract_list mockEnv categoryUrl = Some ?data"
    "db ?w1 \<noteq> None \<or> reachable mockEnv" "\<forall>c d. accepts mockEnv c d"
    by (simp_all add: mockEnv_def)
  from list_scrape_result [OF this]
  obtain w2 where l: "scrapeProductList mockEnv categoryUrl ?w1 =
      (Inr \<lparr>pl_products = map (stampProduct (DateAt (clock ?w1 + 4000))) (ld_products ?data),
      pl_category = Some (ld_category ?data), pl_page = Some 1,
      pl_totalProducts = ld_totalProducts ?data,
      pl_websiteName = ''Amazon'', pl_dateScraped = DateAt (clock ?w1 + 4000)\<rparr>, w2)"
    by blast
  have five: "length fiveEntries = 5" by (simp add: fiveEntries_def)
  from orchestrator_first_three [OF c l, of "\<lambda>_. Inr []" "\<lambda>_. True"] d five show ?thesis
    by (simp add: fiveEntries_def stampProduct_def entryOf_def reviewsUrl_def world0_def)
qed

text \<open>
  C8. In the loop over the products, when the scrape of the item at position \<open>i\<close> fails
  with an error, the loop goes on with the items after \<open>i\<close> from the state the catch
  left: the error is on the console under the item's name, and the product page of every
  later item is visited afterwards.
\<close>

theorem loop_isolates_failures:
  assumes "i < length items"
    and "fst (tryBlock e (items ! i) (forEachProduct e (take i items) w)) = Inl err"
  shows "forEachProduct e items w =
           forEachProduct e (drop (Suc i) items)
             (console_error (ItemFailed (p_name (items ! i)) err)
                (snd (tryBlock e (items ! i) (forEachProduct e (take i items) w)))) \<and>
         ItemFailed (p_name (items ! i)) err \<in> set (console_errors (forEachProduct e items w)) \<and>
         (\<exists>rest. navigations (forEachProduct e items w) =
                   navigations (forEachProduct e (take (Suc i) items) w) @ rest \<and>
                 (\<forall>j. i < j \<and> j < length items \<longrightarrow> p_url (items ! j) \<in> set rest))"
proof -
  define wi where "wi = forEachProduct e (take i items) w"
  define wc where "wc = console_error (ItemFailed (p_name (items ! i)) err)
                (snd (tryBlock e (items ! i) wi))"
  have split_items: "items = take i items @ items ! i # drop (Suc i) items"
    using assms(1) by (simp add: id_take_nth_drop)
  have body: "loopBody e (items ! i) wi = wc"
    using assms(2) by (auto simp: loopBody_def wi_def wc_def split: prod.splits sum.splits)
  have upto: "forEachProduct e (take (Suc i) items) w = wc"
    using assms(1) body by (simp add: take_Suc_conv_app_nth forEach_append wi_def)
  have whole: "forEachProduct e items w = forEachProduct e (drop (Suc i) items) wc"
  proof -
    have "forEachProduct e items w =
          forEachProduct e (take i items @ items ! i # drop (Suc i) items) w"
      using split_items by simp
    also have "\<dots> = forEachProduct e (drop (Suc i) items) wc"
      using body by (simp add: forEach_append wi_def)
    finally show ?thesis .
  qed
  have "prefix (console_errors wc) (console_errors (forEachProduct e (drop (Suc i) items) wc))"
    by (rule forEach_errors_grow) simp
  moreover have "ItemFailed (p_name (items ! i)) err \<in> set (console_errors wc)"
    by (simp add: wc_def console_error_def)
  ultimately have logged: "ItemFailed (p_name (items ! i)) err \<in> set (console_errors (forEachProduct e items w))"
    using whole set_mono_prefix by fastforce
  obtain rest where nav: "navigations (forEachProduct e (drop (Suc i) items) wc) = navigations wc @ rest"
    and sub: "p_url ` set (drop (Suc i) items) \<subseteq> set rest"
    using forEach_navigations by blast
  have later: "\<forall>j. i < j \<and> j < length items \<longrightarrow> p_url (items ! j) \<in> set rest"
  proof (intro allI impI)
    fix j assume j: "i < j \<and> j < length items"
    then have "items ! j = drop (Suc i) items ! (j - Suc i)" by simp
    moreover have "j - Suc i < length (drop (Suc i) items)" using j by (simp; arith)
    ultimately have "items ! j \<in> set (drop (Suc i) items)" by (metis nth_mem)
    then show "p_url (items ! j) \<in> set rest" using sub by blast
  qed
  show ?thesis
    using whole logged nav later upto unfolding wc_def wi_def by auto
qed

theorem loop_isolates_failures_witness:
  "fst (tryBlock flakyEnv ([itemA, itemB] ! 0) (forEachProduct flakyEnv (take 0 [itemA, itemB]) world0))
     = Inl NavigationError \<and>
   ItemFailed ''A'' NavigationError \<in> set (console_errors (forEachProduct flakyEnv [itemA, itemB] world0)) \<and>
   ''https://site/dp/B'' \<in> set (navigations (forEachProduct flakyEnv [itemA, itemB] world0))"
proof -
  have f: "fst (tryBlock flakyEnv ([itemA, itemB] ! 0)
      (forEachProduct flakyEnv (take 0 [itemA, itemB]) world0)) = Inl NavigationError"
    using tryBlock_flaky by simp
  have nA: "p_name itemA = ''A''" by (simp add: itemA_def stampProduct_def entryOf_def)
  have uB: "p_url itemB = ''https://site/dp/B''" by (simp add: itemB_def stampProduct_def entryOf_def)
  have i: "(0::nat) < length [itemA, itemB]" by simp
  from loop_isolates_failures [OF i f] nA uB f show ?thesis by auto
qed

text \<open>
  C9. A reviews scrape whose extraction returns no review entry completes without error
  and writes nothing: no insert call is made, no collection changes, nothing is logged
  as an error, and the connection is not even touched.
\<close>

theorem reviews_empty_noop:
  assumes "goto_ok e (reviewsUrl productUrl)"
    and "extract_reviews e (reviewsUrl productUrl) = Some data"
    and "rd_reviews data = []"
  shows "fst (scrapeProductReviews e productUrl w) = Inr () \<and>
         collections (snd (scrapeProductReviews e productUrl w)) = collections w \<and>
         writes (snd (scrapeProductReviews e productUrl w)) = writes w \<and>
         console_errors (snd (scrapeProductReviews e productUrl w)) = console_errors w \<and>
         sessions (snd (scrapeProductReviews e productUrl w)) = sessions w \<and>
         db (snd (scrapeProductReviews e productUrl w)) = db w \<and>
         client (snd (scrapeProductReviews e productUrl w)) = client w"
  using assms
  by (simp add: scrapeProductReviews_def andThen_def goto_def waitForTimeout_def
      pageExtract_def processReviews_def Let_def)

theorem reviews_empty_noop_witness:
  "goto_ok mockEnv (reviewsUrl ''https://site/dp/A'') \<and>
   extract_reviews mockEnv (reviewsUrl ''https://site/dp/A'') =
     Some \<lparr>rd_productId = ''B0'', rd_reviews = []\<rparr> \<and>
   fst (scrapeProductReviews mockEnv ''https://site/dp/A'' world0) = Inr () \<and>
   writes (snd (scrapeProductReviews mockEnv ''https://site/dp/A'' world0)) = [] \<and>
   console_errors (snd (scrapeProductReviews mockEnv ''https://site/dp/A'' world0)) = [] \<and>
   sessions (snd (scrapeProductReviews mockEnv ''https://site/dp/A'' world0)) = 0"
  using reviews_empty_noop [of mockEnv "''https://site/dp/A''" "\<lparr>rd_productId = ''B0'', rd_reviews = []\<rparr>" world0]
  by (simp add: mockEnv_def world0_def)

text \<open>
  C10. Only the first occurrence is replaced: when the occurrence of \<^verbatim>\<open>/dp/\<close> after
  \<open>pre\<close> is the leftmost one, everything after it is kept as it is, so every occurrence
  of \<^verbatim>\<open>/dp/\<close> in the rest of the URL is still there in the reviews URL.
\<close>

theorem replace_first_only: "\<not> includes_str (pre @ ''/dp'') ''/dp/'' \<Longrightarrow>
   reviewsUrl (pre @ ''/dp/'' @ post) = pre @ ''/product-reviews/'' @ post \<and>
   (includes_str post ''/dp/'' \<longrightarrow> includes_str (reviewsUrl (pre @ ''/dp/'' @ post)) ''/dp/'')"
proof -
  assume first: "\<not> includes_str (pre @ ''/dp'') ''/dp/''"
  have ne: "''/dp/'' \<noteq> []" by simp
  have inc: "includes_str (pre @ ''/dp/'' @ post) ''/dp/''"
    unfolding includes_iff by blast
  have "\<not> includes_str (pre @ butlast ''/dp/'') ''/dp/''" using first by simp
  then have "replace (pre @ ''/dp/'' @ post) ''/dp/'' ''/product-reviews/'' = pre @ ''/product-reviews/'' @ post"
    by (rule replace_leftmost [OF ne])
  then have r: "reviewsUrl (pre @ ''/dp/'' @ post) = pre @ ''/product-reviews/'' @ post"
    using inc by (simp add: reviewsUrl_def)
  have "includes_str post ''/dp/'' \<longrightarrow> includes_str (pre @ ''/product-reviews/'' @ post) ''/dp/''"
  proof
    assume "includes_str post ''/dp/''"
    then obtain a b where "post = a @ ''/dp/'' @ b" unfolding includes_iff by blast
    then have "pre @ ''/product-reviews/'' @ post = (pre @ ''/product-reviews/'' @ a) @ ''/dp/'' @ b" by simp
    then show "includes_str (pre @ ''/product-reviews/'' @ post) ''/dp/''" unfolding includes_iff by blast
  qed
  with r show ?thesis by simp
qed

theorem replace_first_only_witness: "\<not> includes_str (''https://site'' @ ''/dp'') ''/dp/'' \<and>
   reviewsUrl ''https://site/dp/A/dp/B'' = ''https://site/product-reviews/A/dp/B'' \<and>
   includes_str ''A/dp/B'' ''/dp/'' \<and> includes_str (reviewsUrl ''https://site/dp/A/dp/B'') ''/dp/''"
  using replace_first_only [of "''https://site''" "''A/dp/B''"]
  by simp

end
